theory Spec2Isabelle
  imports Main
begin

section \<open>JavaScript values and defaults\<close>

text \<open>
  The resilience layer is TypeScript. Values of type \<open>unknown\<close> (request bodies, the
  \<open>additionalData\<close> of an error context) are modelled by \<open>val\<close>: primitives are carried
  by value, objects by reference into a heap (section on the error handler). Numbers are
  IEEE doubles in the source; every number the modelled code reads is a counter, a
  threshold, a status code or a millisecond clock, so they are modelled by \<open>int\<close>
  (no \<open>NaN\<close>, no fractions).
\<close>

datatype val = VUndefined | VNull | VBool bool | VNum int | VStr string | VRef nat

text \<open>A parameter with a default value (\<open>x: T = d\<close>): the default applies when the
  argument is \<open>undefined\<close>, here \<open>None\<close>.\<close>

fun dflt :: "'a \<Rightarrow> 'a option \<Rightarrow> 'a" where
  "dflt d None = d"
| "dflt d (Some x) = x"

text \<open>\<open>x || d\<close> on an optional number: \<open>undefined\<close> and \<open>0\<close> are falsy.\<close>

fun or_num :: "int option \<Rightarrow> int \<Rightarrow> int" where
  "or_num None d = d"
| "or_num (Some x) d = (if x = 0 then d else x)"

text \<open>\<open>x || d\<close> on an optional string: \<open>undefined\<close> and the empty string are falsy.\<close>

fun or_str :: "string option \<Rightarrow> string \<Rightarrow> string" where
  "or_str None d = d"
| "or_str (Some x) d = (if x = [] then d else x)"


section \<open>Error taxonomy (shared/src/types/errors.ts)\<close>

text \<open>Source: \<^verbatim>\<open>src/shared/src/types/errors.ts\<close>.\<close>

datatype ErrorSeverity = LOW | MEDIUM | HIGH | CRITICAL

datatype ErrorCode =
    VALIDATION_ERROR | INVALID_INPUT | MISSING_REQUIRED_FIELD
  | AUTHENTICATION_ERROR | INVALID_CREDENTIALS | TOKEN_EXPIRED | TOKEN_INVALID
  | AUTHORIZATION_ERROR | INSUFFICIENT_PERMISSIONS | FORBIDDEN
  | NOT_FOUND | RESOURCE_NOT_FOUND
  | CONFLICT_ERROR | DUPLICATE_ENTRY
  | RATE_LIMIT_EXCEEDED
  | INTERNAL_SERVER_ERROR | DATABASE_ERROR | EXTERNAL_SERVICE_ERROR | NETWORK_ERROR
  | SERVICE_UNAVAILABLE | CIRCUIT_BREAKER_OPEN

text \<open>The string value of each enum member, as a template literal prints it.\<close>

fun ErrorCode_str :: "ErrorCode \<Rightarrow> string" where
  "ErrorCode_str VALIDATION_ERROR = ''VALIDATION_ERROR''"
| "ErrorCode_str INVALID_INPUT = ''INVALID_INPUT''"
| "ErrorCode_str MISSING_REQUIRED_FIELD = ''MISSING_REQUIRED_FIELD''"
| "ErrorCode_str AUTHENTICATION_ERROR = ''AUTHENTICATION_ERROR''"
| "ErrorCode_str INVALID_CREDENTIALS = ''INVALID_CREDENTIALS''"
| "ErrorCode_str TOKEN_EXPIRED = ''TOKEN_EXPIRED''"
| "ErrorCode_str TOKEN_INVALID = ''TOKEN_INVALID''"
| "ErrorCode_str AUTHORIZATION_ERROR = ''AUTHORIZATION_ERROR''"
| "ErrorCode_str INSUFFICIENT_PERMISSIONS = ''INSUFFICIENT_PERMISSIONS''"
| "ErrorCode_str FORBIDDEN = ''FORBIDDEN''"
| "ErrorCode_str NOT_FOUND = ''NOT_FOUND''"
| "ErrorCode_str RESOURCE_NOT_FOUND = ''RESOURCE_NOT_FOUND''"
| "ErrorCode_str CONFLICT_ERROR = ''CONFLICT_ERROR''"
| "ErrorCode_str DUPLICATE_ENTRY = ''DUPLICATE_ENTRY''"
| "ErrorCode_str RATE_LIMIT_EXCEEDED = ''RATE_LIMIT_EXCEEDED''"
| "ErrorCode_str INTERNAL_SERVER_ERROR = ''INTERNAL_SERVER_ERROR''"
| "ErrorCode_str DATABASE_ERROR = ''DATABASE_ERROR''"
| "ErrorCode_str EXTERNAL_SERVICE_ERROR = ''EXTERNAL_SERVICE_ERROR''"
| "ErrorCode_str NETWORK_ERROR = ''NETWORK_ERROR''"
| "ErrorCode_str SERVICE_UNAVAILABLE = ''SERVICE_UNAVAILABLE''"
| "ErrorCode_str CIRCUIT_BREAKER_OPEN = ''CIRCUIT_BREAKER_OPEN''"

text \<open>
  \<open>ErrorContext\<close> and \<open>Partial<ErrorContext>\<close> share one record: every field is
  optional, an absent key is \<open>None\<close>. The base constructor always supplies
  \<open>timestamp\<close>. \<open>additionalData\<close> is a \<open>Record<string, unknown>\<close>. The field
  \<open>httpMethod\<close> is the source's \<open>method\<close>.
\<close>

record ErrorContext =
  timestamp :: "string option"
  userId :: "string option"
  requestId :: "string option"
  path :: "string option"
  httpMethod :: "string option"
  userAgent :: "string option"
  additionalData :: "(string \<rightharpoonup> val) option"

definition emptyContext :: ErrorContext where
  "emptyContext = \<lparr>timestamp = None, userId = None, requestId = None, path = None,
     httpMethod = None, userAgent = None, additionalData = None\<rparr>"

text \<open>
  An \<open>AppError\<close> instance. \<open>className\<close> is \<open>this.name = this.constructor.name\<close>, the
  subclass that was constructed; \<open>errContext\<close> is the field \<open>context\<close>.
\<close>

record AppError =
  className :: string
  message :: string
  code :: ErrorCode
  severity :: ErrorSeverity
  statusCode :: int
  errContext :: ErrorContext
  isOperational :: bool
  stack :: "string option"

text \<open>
  The base constructor. \<open>cls\<close> is \<open>new.target\<close>, \<open>now\<close> is
  \<open>new Date().toISOString()\<close> and \<open>stk\<close> the trace that \<open>Error.captureStackTrace\<close>
  stores; the three are read from the runtime, so they are parameters here. The context is
  \<open>{ timestamp: now, ...context }\<close>: a timestamp in the given partial context wins. (A
  partial context that has the key \<open>timestamp\<close> with the value \<open>undefined\<close> is not
  represented: \<open>None\<close> stands for the absent key.)
\<close>

definition AppError_new ::
  "string \<Rightarrow> string \<Rightarrow> string \<Rightarrow> string \<Rightarrow> ErrorCode \<Rightarrow> ErrorSeverity option \<Rightarrow> int option
     \<Rightarrow> ErrorContext option \<Rightarrow> bool option \<Rightarrow> AppError" where
  "AppError_new cls now stk msg c sev status ctx oper =
     (let context = dflt emptyContext ctx in
      \<lparr>className = cls,
       message = msg,
       code = c,
       severity = dflt MEDIUM sev,
       statusCode = dflt 500 status,
       errContext = context\<lparr>timestamp := Some (dflt now (timestamp context))\<rparr>,
       isOperational = dflt True oper,
       stack = Some stk\<rparr>)"

definition ValidationError :: "string \<Rightarrow> string \<Rightarrow> string option \<Rightarrow> ErrorContext option \<Rightarrow> AppError" where
  "ValidationError now stk msg ctx =
     AppError_new ''ValidationError'' now stk (dflt ''Validation failed'' msg)
       VALIDATION_ERROR (Some LOW) (Some 400) (Some (dflt emptyContext ctx)) None"

definition AuthenticationError :: "string \<Rightarrow> string \<Rightarrow> string option \<Rightarrow> ErrorContext option \<Rightarrow> AppError" where
  "AuthenticationError now stk msg ctx =
     AppError_new ''AuthenticationError'' now stk (dflt ''Authentication failed'' msg)
       AUTHENTICATION_ERROR (Some HIGH) (Some 401) (Some (dflt emptyContext ctx)) None"

definition AuthorizationError :: "string \<Rightarrow> string \<Rightarrow> string option \<Rightarrow> ErrorContext option \<Rightarrow> AppError" where
  "AuthorizationError now stk msg ctx =
     AppError_new ''AuthorizationError'' now stk (dflt ''Insufficient permissions'' msg)
       AUTHORIZATION_ERROR (Some HIGH) (Some 403) (Some (dflt emptyContext ctx)) None"

definition NotFoundError :: "string \<Rightarrow> string \<Rightarrow> string option \<Rightarrow> ErrorContext option \<Rightarrow> AppError" where
  "NotFoundError now stk msg ctx =
     AppError_new ''NotFoundError'' now stk (dflt ''Resource not found'' msg)
       NOT_FOUND (Some LOW) (Some 404) (Some (dflt emptyContext ctx)) None"

definition ConflictError :: "string \<Rightarrow> string \<Rightarrow> string option \<Rightarrow> ErrorContext option \<Rightarrow> AppError" where
  "ConflictError now stk msg ctx =
     AppError_new ''ConflictError'' now stk (dflt ''Resource conflict'' msg)
       CONFLICT_ERROR (Some MEDIUM) (Some 409) (Some (dflt emptyContext ctx)) None"

definition RateLimitError :: "string \<Rightarrow> string \<Rightarrow> string option \<Rightarrow> ErrorContext option \<Rightarrow> AppError" where
  "RateLimitError now stk msg ctx =
     AppError_new ''RateLimitError'' now stk (dflt ''Rate limit exceeded'' msg)
       RATE_LIMIT_EXCEEDED (Some MEDIUM) (Some 429) (Some (dflt emptyContext ctx)) None"

definition DatabaseError ::
  "string \<Rightarrow> string \<Rightarrow> string option \<Rightarrow> ErrorContext option \<Rightarrow> bool option \<Rightarrow> AppError" where
  "DatabaseError now stk msg ctx oper =
     AppError_new ''DatabaseError'' now stk (dflt ''Database operation failed'' msg)
       DATABASE_ERROR (Some CRITICAL) (Some 500) (Some (dflt emptyContext ctx))
       (Some (dflt False oper))"

definition ExternalServiceError :: "string \<Rightarrow> string \<Rightarrow> string option \<Rightarrow> ErrorContext option \<Rightarrow> AppError" where
  "ExternalServiceError now stk msg ctx =
     AppError_new ''ExternalServiceError'' now stk (dflt ''External service unavailable'' msg)
       EXTERNAL_SERVICE_ERROR (Some HIGH) (Some 502) (Some (dflt emptyContext ctx)) None"

definition CircuitBreakerError :: "string \<Rightarrow> string \<Rightarrow> string option \<Rightarrow> ErrorContext option \<Rightarrow> AppError" where
  "CircuitBreakerError now stk msg ctx =
     AppError_new ''CircuitBreakerError'' now stk (dflt ''Service temporarily unavailable'' msg)
       CIRCUIT_BREAKER_OPEN (Some HIGH) (Some 503) (Some (dflt emptyContext ctx)) None"

text \<open>
  \<open>InternalServerError\<close> takes the original error (its message and stack, each possibly
  \<open>undefined\<close>) and stores both under \<open>additionalData\<close>, after the entries the given
  context already has. It passes \<open>false\<close> for \<open>isOperational\<close>.
\<close>

record OriginalError =
  origMessage :: "string option"
  origStack :: "string option"

fun opt_str_val :: "string option \<Rightarrow> val" where
  "opt_str_val None = VUndefined"
| "opt_str_val (Some s) = VStr s"

definition InternalServerError ::
  "string \<Rightarrow> string \<Rightarrow> string option \<Rightarrow> ErrorContext option \<Rightarrow> OriginalError option \<Rightarrow> AppError" where
  "InternalServerError now stk msg ctx originalError =
     (let context = dflt emptyContext ctx;
          errorContext = context\<lparr>additionalData := Some
            ((dflt Map.empty (additionalData context))
               (''originalError'' \<mapsto> opt_str_val (Option.bind originalError origMessage),
                ''originalStack'' \<mapsto> opt_str_val (Option.bind originalError origStack)))\<rparr>
      in AppError_new ''InternalServerError'' now stk (dflt ''Internal server error'' msg)
           INTERNAL_SERVER_ERROR (Some CRITICAL) (Some 500) (Some errorContext) (Some False))"

text \<open>The serialized envelope. \<open>node_env\<close> is \<open>process.env.NODE_ENV\<close>.\<close>

record ErrorBody =
  bodyCode :: ErrorCode
  bodyMessage :: string
  bodySeverity :: ErrorSeverity
  bodyContext :: ErrorContext
  bodyStack :: "string option"

record ErrorResponse =
  success :: bool
  error :: ErrorBody

definition toJSON :: "string option \<Rightarrow> AppError \<Rightarrow> ErrorResponse" where
  "toJSON node_env e =
     \<lparr>success = False,
      error = \<lparr>bodyCode = code e, bodyMessage = message e, bodySeverity = severity e,
               bodyContext = errContext e,
               bodyStack = (if node_env = Some ''development'' then stack e else None)\<rparr>\<rparr>"

text \<open>
  The ten concrete error classes, to range over "every error kind", and the construction
  of each with only a message and a context, that is without any explicit override.
\<close>

datatype ErrorKind =
    KValidation | KAuthentication | KAuthorization | KNotFound | KConflict | KRateLimit
  | KDatabase | KExternalService | KCircuitBreaker | KInternal

fun construct :: "ErrorKind \<Rightarrow> string \<Rightarrow> string \<Rightarrow> string option \<Rightarrow> ErrorContext option \<Rightarrow> AppError" where
  "construct KValidation now stk msg ctx = ValidationError now stk msg ctx"
| "construct KAuthentication now stk msg ctx = AuthenticationError now stk msg ctx"
| "construct KAuthorization now stk msg ctx = AuthorizationError now stk msg ctx"
| "construct KNotFound now stk msg ctx = NotFoundError now stk msg ctx"
| "construct KConflict now stk msg ctx = ConflictError now stk msg ctx"
| "construct KRateLimit now stk msg ctx = RateLimitError now stk msg ctx"
| "construct KDatabase now stk msg ctx = DatabaseError now stk msg ctx None"
| "construct KExternalService now stk msg ctx = ExternalServiceError now stk msg ctx"
| "construct KCircuitBreaker now stk msg ctx = CircuitBreakerError now stk msg ctx"
| "construct KInternal now stk msg ctx = InternalServerError now stk msg ctx None"


section \<open>Circuit breaker (circuitBreaker.ts)\<close>

text \<open>Source: the class \<open>CircuitBreaker\<close>, found in
  \<^verbatim>\<open>src/backend/node_modules/@enterprise/shared/dist/types/errors.d.ts\<close>, lines 137 to 292.\<close>

text \<open>
  The breaker keeps one boolean \<open>isOpen\<close> and two counters; it reads the wall clock
  with \<open>Date.now()\<close>. The wrapped operation is an opaque asynchronous callable: it is
  modelled as a transformer of the outside world \<open>'w\<close> that settles with a value or with
  an error. The runtime record gives what the code reads from the world: the millisecond
  clock, the ISO timestamp and the captured stack trace of a freshly built error. Logger
  calls change nothing the breaker reads and are left out, except where the evaluation of
  a logger argument can throw. \<open>execute\<close> is asynchronous: it runs up to
  \<open>await operation()\<close>, is suspended, and resumes when the operation has settled. Calls
  on one breaker may overlap, so the two parts are modelled separately and other calls may
  change the breaker in between.
\<close>

record 'w Runtime =
  dateNow :: "'w \<Rightarrow> int"
  isoNow :: "'w \<Rightarrow> string"
  stackOf :: "'w \<Rightarrow> string"

record CircuitBreakerConfig =
  failureThreshold :: int
  successThreshold :: int
  timeout :: int
  monitoringPeriod :: int

text \<open>\<open>Partial<CircuitBreakerConfig>\<close>, the constructor's argument.\<close>

record PartialConfig =
  optFailureThreshold :: "int option"
  optSuccessThreshold :: "int option"
  optTimeout :: "int option"
  optMonitoringPeriod :: "int option"

definition noConfig :: PartialConfig where
  "noConfig = \<lparr>optFailureThreshold = None, optSuccessThreshold = None, optTimeout = None,
     optMonitoringPeriod = None\<rparr>"

record CircuitBreakerState =
  isOpen :: bool
  failureCount :: int
  successCount :: int
  lastFailureTime :: "int option"
  lastSuccessTime :: "int option"

record CircuitBreaker =
  state :: CircuitBreakerState
  config :: CircuitBreakerConfig
  name :: string

definition initialState :: CircuitBreakerState where
  "initialState = \<lparr>isOpen = False, failureCount = 0, successCount = 0,
     lastFailureTime = None, lastSuccessTime = None\<rparr>"

definition CircuitBreaker_new :: "string \<Rightarrow> PartialConfig \<Rightarrow> CircuitBreaker" where
  "CircuitBreaker_new nm cfg =
     \<lparr>state = initialState,
      config = \<lparr>failureThreshold = or_num (optFailureThreshold cfg) 5,
                successThreshold = or_num (optSuccessThreshold cfg) 2,
                timeout = or_num (optTimeout cfg) 60000,
                monitoringPeriod = or_num (optMonitoringPeriod cfg) 300000\<rparr>,
      name = nm\<rparr>"

text \<open>\<open>!this.state.lastFailureTime\<close> holds for \<open>null\<close> and for the number \<open>0\<close>.\<close>

definition shouldAttemptReset :: "'w Runtime \<Rightarrow> CircuitBreaker \<Rightarrow> 'w \<Rightarrow> bool" where
  "shouldAttemptReset rt cb w =
     (case lastFailureTime (state cb) of
        None \<Rightarrow> False
      | Some t \<Rightarrow> if t = 0 then False else dateNow rt w - t > timeout (config cb))"

definition onSuccess :: "'w Runtime \<Rightarrow> CircuitBreaker \<Rightarrow> 'w \<Rightarrow> CircuitBreaker" where
  "onSuccess rt cb w =
     (let s1 = (state cb)\<lparr>successCount := successCount (state cb) + 1,
                          failureCount := 0,
                          lastSuccessTime := Some (dateNow rt w)\<rparr>;
          s2 = (if successCount s1 \<ge> successThreshold (config cb)
                then s1\<lparr>isOpen := False, successCount := 0\<rparr> else s1)
      in cb\<lparr>state := s2\<rparr>)"

text \<open>
  What an operation rejects with (what \<open>catch (error)\<close> receives): \<open>null\<close>,
  \<open>undefined\<close>, or any other value. Reading \<open>error.message\<close> throws a \<open>TypeError\<close> on
  the first two; on any other value the property read gives a result (possibly
  \<open>undefined\<close>). Values whose \<open>message\<close> is an accessor that throws, and a logger
  that throws, are not modelled.
\<close>

datatype 'e reason = RNull | RUndefined | RValue 'e

fun nullish :: "'e reason \<Rightarrow> bool" where
  "nullish RNull = True"
| "nullish RUndefined = True"
| "nullish (RValue e) = False"

text \<open>
  \<open>onFailure\<close> counts the failure and records its time, then calls \<open>logger.warn\<close> with
  \<open>error.message\<close> among the arguments, then tests the threshold. When the message cannot
  be read the function throws there: the counter and the time are written, the threshold
  is not tested. The result says which of the two happened and gives the breaker.
\<close>

datatype failure_handling = Handled CircuitBreaker | ThrewTypeError CircuitBreaker

fun breakerAfter :: "failure_handling \<Rightarrow> CircuitBreaker" where
  "breakerAfter (Handled cb) = cb"
| "breakerAfter (ThrewTypeError cb) = cb"

definition onFailure :: "'w Runtime \<Rightarrow> CircuitBreaker \<Rightarrow> 'e reason \<Rightarrow> 'w \<Rightarrow> failure_handling" where
  "onFailure rt cb err w =
     (let s1 = (state cb)\<lparr>failureCount := failureCount (state cb) + 1,
                          lastFailureTime := Some (dateNow rt w)\<rparr>
      in if nullish err then ThrewTypeError (cb\<lparr>state := s1\<rparr>)
         else Handled (cb\<lparr>state := (if failureCount s1 \<ge> failureThreshold (config cb)
                                      then s1\<lparr>isOpen := True\<rparr> else s1)\<rparr>))"

text \<open>How the awaited operation settles, and what \<open>execute\<close> throws.\<close>

datatype ('a, 'e) settled = Fulfilled 'a | Rejected 'e

datatype 'e exec_error = CircuitOpen AppError | OperationError "'e reason" | TypeError

text \<open>The error thrown while the circuit stays open.\<close>

definition circuitOpenError :: "'w Runtime \<Rightarrow> CircuitBreaker \<Rightarrow> 'w \<Rightarrow> AppError" where
  "circuitOpenError rt cb w =
     CircuitBreakerError (isoNow rt w) (stackOf rt w)
       (Some (''Circuit breaker is open for '' @ name cb))
       (Some (emptyContext\<lparr>additionalData := Some [''circuitBreaker'' \<mapsto> VStr (name cb)]\<rparr>))"

text \<open>
  The first part of \<open>execute\<close>, up to the call of the operation: an open breaker either
  refuses the call with the circuit-open error, or, when the reset is due, clears
  \<open>isOpen\<close>, zeroes the success counter and admits the call; a breaker that is not open
  admits the call as it is. This part runs without interruption.
\<close>

datatype admission = Refused AppError | Admitted CircuitBreaker

definition execute_begin :: "'w Runtime \<Rightarrow> CircuitBreaker \<Rightarrow> 'w \<Rightarrow> admission" where
  "execute_begin rt cb w =
     (if isOpen (state cb)
      then (if shouldAttemptReset rt cb w
            then Admitted (cb\<lparr>state := (state cb)\<lparr>isOpen := False, successCount := 0\<rparr>\<rparr>)
            else Refused (circuitOpenError rt cb w))
      else Admitted cb)"

text \<open>
  The second part of \<open>execute\<close>, after the \<open>await\<close>: it acts on the breaker as it is when
  the operation has settled, and reads the clock then. A fulfilled operation goes to
  \<open>onSuccess\<close> and its value is returned. A rejected one goes to \<open>onFailure\<close>; if that
  returns, the operation's error is thrown again, and if it throws, its \<open>TypeError\<close>
  is what the caller gets.
\<close>

definition execute_resume ::
  "'w Runtime \<Rightarrow> CircuitBreaker \<Rightarrow> ('a, 'e reason) settled \<Rightarrow> 'w
     \<Rightarrow> ('a, 'e exec_error) settled \<times> CircuitBreaker" where
  "execute_resume rt cb outcome w =
     (case outcome of
        Fulfilled r \<Rightarrow> (Fulfilled r, onSuccess rt cb w)
      | Rejected err \<Rightarrow>
          (case onFailure rt cb err w of
             Handled cb' \<Rightarrow> (Rejected (OperationError err), cb')
           | ThrewTypeError cb' \<Rightarrow> (Rejected TypeError, cb')))"

text \<open>
  A call that runs alone: nothing else touches the breaker between its two parts. It
  returns what the caller sees, the breaker afterwards and the world afterwards. When the
  call is refused the operation is not applied: the world comes back as it was. Otherwise
  the operation runs on the world at the time of the call, and the second part reads the
  clock of the world the operation leaves.
\<close>

definition execute_alone ::
  "'w Runtime \<Rightarrow> CircuitBreaker \<Rightarrow> ('w \<Rightarrow> ('a, 'e reason) settled \<times> 'w) \<Rightarrow> 'w
     \<Rightarrow> ('a, 'e exec_error) settled \<times> CircuitBreaker \<times> 'w" where
  "execute_alone rt cb operation w =
     (case execute_begin rt cb w of
        Refused e \<Rightarrow> (Rejected (CircuitOpen e), cb, w)
      | Admitted cb1 \<Rightarrow>
          (case operation w of
             (outcome, w') \<Rightarrow>
               (case execute_resume rt cb1 outcome w' of
                  (result, cb') \<Rightarrow> (result, cb', w'))))"

definition getState :: "CircuitBreaker \<Rightarrow> CircuitBreakerState" where
  "getState cb = state cb"

definition reset :: "CircuitBreaker \<Rightarrow> CircuitBreaker" where
  "reset cb = cb\<lparr>state := initialState\<rparr>"

text \<open>
  What can happen to a breaker over time: a call that runs alone; the first part of a
  call whose operation is then awaited while other things happen; the second part of such
  a call, with the outcome of its operation; an administrative \<open>reset\<close>; the world moving
  on (time passes, operations in flight act on it). Every interleaving of overlapping
  calls is a sequence of these.
\<close>

datatype ('a, 'e, 'w) action =
    Execute "'w \<Rightarrow> ('a, 'e reason) settled \<times> 'w"
  | Begin
  | Resume "('a, 'e reason) settled"
  | Reset
  | Elapse "'w \<Rightarrow> 'w"

fun step :: "'w Runtime \<Rightarrow> ('a, 'e, 'w) action \<Rightarrow> CircuitBreaker \<times> 'w \<Rightarrow> CircuitBreaker \<times> 'w" where
  "step rt (Execute operation) (cb, w) = snd (execute_alone rt cb operation w)"
| "step rt Begin (cb, w) =
     (case execute_begin rt cb w of Refused e \<Rightarrow> (cb, w) | Admitted cb1 \<Rightarrow> (cb1, w))"
| "step rt (Resume outcome) (cb, w) = (snd (execute_resume rt cb outcome w), w)"
| "step rt Reset (cb, w) = (reset cb, w)"
| "step rt (Elapse f) (cb, w) = (cb, f w)"

fun run :: "'w Runtime \<Rightarrow> ('a, 'e, 'w) action list \<Rightarrow> CircuitBreaker \<times> 'w \<Rightarrow> CircuitBreaker \<times> 'w" where
  "run rt [] s = s"
| "run rt (a # as) s = run rt as (step rt a s)"

text \<open>An action that belongs to a history without overlapping calls.\<close>

fun alone :: "('a, 'e, 'w) action \<Rightarrow> bool" where
  "alone (Execute operation) = True"
| "alone Reset = True"
| "alone (Elapse f) = True"
| "alone Begin = False"
| "alone (Resume outcome) = False"

text \<open>
  The outcome that an action delivers to the breaker, with the world in which it is
  delivered: that of the operation of a call that runs alone, or that of a resumed call.
\<close>

fun outcome_of :: "('a, 'e, 'w) action \<Rightarrow> 'w \<Rightarrow> (('a, 'e reason) settled \<times> 'w) option" where
  "outcome_of (Execute operation) w = Some (operation w)"
| "outcome_of (Resume outcome) w = Some (outcome, w)"
| "outcome_of _ w = None"

fun failure :: "('a, 'e reason) settled \<Rightarrow> bool" where
  "failure (Rejected (RValue e)) = True"
| "failure _ = False"

fun nullish_failure :: "('a, 'e reason) settled \<Rightarrow> bool" where
  "nullish_failure (Rejected RNull) = True"
| "nullish_failure (Rejected RUndefined) = True"
| "nullish_failure _ = False"

fun fulfilment :: "('a, 'e reason) settled \<Rightarrow> bool" where
  "fulfilment (Fulfilled r) = True"
| "fulfilment _ = False"

text \<open>
  A run of consecutive outcomes of one kind: every action delivers an outcome, and the
  outcome it delivers in the world in which the run reaches it is of that kind.
\<close>

fun outcomes ::
  "(('a, 'e reason) settled \<Rightarrow> bool) \<Rightarrow> 'w Runtime \<Rightarrow> ('a, 'e, 'w) action list
     \<Rightarrow> CircuitBreaker \<times> 'w \<Rightarrow> bool" where
  "outcomes p rt [] s = True"
| "outcomes p rt (a # as) s =
     (case outcome_of a (snd s) of
        None \<Rightarrow> False
      | Some (outcome, w') \<Rightarrow> p outcome \<and> outcomes p rt as (step rt a s))"

text \<open>Failures that reject with a value other than \<open>null\<close> and \<open>undefined\<close>.\<close>

definition failures :: "'w Runtime \<Rightarrow> ('a, 'e, 'w) action list \<Rightarrow> CircuitBreaker \<times> 'w \<Rightarrow> bool" where
  "failures rt fs s = outcomes failure rt fs s"

text \<open>Failures that reject with \<open>null\<close> or \<open>undefined\<close>.\<close>

definition nullish_failures ::
  "'w Runtime \<Rightarrow> ('a, 'e, 'w) action list \<Rightarrow> CircuitBreaker \<times> 'w \<Rightarrow> bool" where
  "nullish_failures rt fs s = outcomes nullish_failure rt fs s"

definition succeeds :: "('a, 'e, 'w) action \<Rightarrow> CircuitBreaker \<times> 'w \<Rightarrow> bool" where
  "succeeds a s = (case outcome_of a (snd s) of None \<Rightarrow> False | Some (outcome, w') \<Rightarrow> fulfilment outcome)"

subsection \<open>A concrete breaker scenario\<close>

text \<open>
  The scenario of the specification: \<open>failureThreshold = 3\<close>, \<open>successThreshold = 2\<close>, a
  recovery timeout of 60 seconds. The world is nothing but the millisecond clock; an
  operation settles at a given time.
\<close>

definition clockRuntime :: "int Runtime" where
  "clockRuntime = \<lparr>dateNow = (\<lambda>w. w), isoNow = (\<lambda>w. ''1970-01-01T00:00:00.000Z''),
     stackOf = (\<lambda>w. ''Error'')\<rparr>"

definition failsAt :: "int \<Rightarrow> int \<Rightarrow> (unit, string reason) settled \<times> int" where
  "failsAt t w = (Rejected (RValue ''upstream unavailable''), t)"

text \<open>An operation that rejects with \<open>undefined\<close>, as \<open>setTimeout(reject, ms)\<close> does.\<close>

definition rejectsUndefinedAt :: "int \<Rightarrow> int \<Rightarrow> (unit, string reason) settled \<times> int" where
  "rejectsUndefinedAt t w = (Rejected RUndefined, t)"

definition succeedsAt :: "int \<Rightarrow> int \<Rightarrow> (unit, string reason) settled \<times> int" where
  "succeedsAt t w = (Fulfilled (), t)"

definition scenarioConfig :: PartialConfig where
  "scenarioConfig = \<lparr>optFailureThreshold = Some 3, optSuccessThreshold = Some 2,
     optTimeout = Some 60000, optMonitoringPeriod = None\<rparr>"

definition scenarioBreaker :: CircuitBreaker where
  "scenarioBreaker = CircuitBreaker_new ''ai-provider'' scenarioConfig"

definition twoFailures :: "(unit, string, int) action list" where
  "twoFailures = [Execute (failsAt 1), Execute (failsAt 2)]"

definition threeFailures :: "(unit, string, int) action list" where
  "threeFailures = [Execute (failsAt 998), Execute (failsAt 999), Execute (failsAt 1000)]"

definition threeUndefined :: "(unit, string, int) action list" where
  "threeUndefined = [Execute (rejectsUndefinedAt 998), Execute (rejectsUndefinedAt 999),
     Execute (rejectsUndefinedAt 1000)]"

definition oneSuccess :: "(unit, string, int) action" where
  "oneSuccess = Execute (succeedsAt 3)"

text \<open>Three failed calls, the last one at \<open>t = 1000\<close>.\<close>

definition openedBreaker :: CircuitBreaker where
  "openedBreaker = fst (run clockRuntime threeFailures (scenarioBreaker, 997))"

text \<open>Then a call at \<open>t = 61001\<close> that goes through and succeeds.\<close>

definition afterTrialSuccess :: CircuitBreaker where
  "afterTrialSuccess = fst (snd (execute_alone clockRuntime openedBreaker (succeedsAt 61002) 61001))"

text \<open>Then a call at \<open>t = 61003\<close> that fails.\<close>

definition afterTrialFailure :: CircuitBreaker where
  "afterTrialFailure = fst (snd (execute_alone clockRuntime afterTrialSuccess (failsAt 61004) 61003))"

text \<open>Three calls that reject with \<open>undefined\<close>, on the fresh breaker.\<close>

definition afterThreeUndefined :: CircuitBreaker where
  "afterThreeUndefined = fst (run clockRuntime threeUndefined (scenarioBreaker, 997))"

text \<open>
  Two overlapping calls on the opened breaker at \<open>t = 61001\<close>: both pass the first part,
  the second call's operation fails first, then the first call's operation succeeds.
\<close>

definition overlapping :: "(unit, string, int) action list" where
  "overlapping = [Begin, Begin, Resume (Rejected (RValue ''upstream unavailable'')),
     Resume (Fulfilled ())]"

definition afterOverlap :: CircuitBreaker where
  "afterOverlap = fst (run clockRuntime overlapping (openedBreaker, 61001))"


section \<open>Central error handler (backend/src/middleware/errorHandler.ts)\<close>

text \<open>Source: \<^verbatim>\<open>src/backend/src/middleware/errorHandler.ts\<close>, lines 1 to 166.\<close>

subsection \<open>Objects and the heap\<close>

text \<open>
  A request body is whatever the body parser produced: a primitive, or a reference to an
  object. Objects live in a heap, a list of cells addressed by position, so that a copy and
  its original are different cells and a write to one can be told from a write to the
  other. A cell holds its own enumerable properties; arrays are cells whose keys are the
  indices. A reference held by a live value always points into the heap.
\<close>

datatype objkind = PlainObject | ArrayObject | FunctionObject

record cell =
  kind :: objkind
  props :: "string \<rightharpoonup> val"

type_synonym heap = "cell list"

fun truthy :: "val \<Rightarrow> bool" where
  "truthy VUndefined = False"
| "truthy VNull = False"
| "truthy (VBool b) = b"
| "truthy (VNum n) = (n \<noteq> 0)"
| "truthy (VStr s) = (s \<noteq> [])"
| "truthy (VRef a) = True"

fun typeof :: "heap \<Rightarrow> val \<Rightarrow> string" where
  "typeof h VUndefined = ''undefined''"
| "typeof h VNull = ''object''"
| "typeof h (VBool b) = ''boolean''"
| "typeof h (VNum n) = ''number''"
| "typeof h (VStr s) = ''string''"
| "typeof h (VRef a) = (if kind (h ! a) = FunctionObject then ''function'' else ''object'')"

text \<open>\<open>{ ...body }\<close>: a fresh plain object with the own enumerable properties of \<open>body\<close>.
  Property values are copied as they are, so a nested object is shared, not copied.\<close>

definition spread :: "heap \<Rightarrow> nat \<Rightarrow> nat \<times> heap" where
  "spread h a = (length h, h @ [\<lparr>kind = PlainObject, props = props (h ! a)\<rparr>])"

text \<open>\<open>field in obj\<close>, for an object whose prototype chain does not define \<open>field\<close>.\<close>

definition has_property :: "heap \<Rightarrow> nat \<Rightarrow> string \<Rightarrow> bool" where
  "has_property h a field = (props (h ! a) field \<noteq> None)"

text \<open>\<open>obj[field] = v\<close>: a write to the cell \<open>a\<close> and to no other.\<close>

definition set_property :: "heap \<Rightarrow> nat \<Rightarrow> string \<Rightarrow> val \<Rightarrow> heap" where
  "set_property h a field v = h[a := (h ! a)\<lparr>props := (props (h ! a))(field \<mapsto> v)\<rparr>]"

subsection \<open>sanitizeRequestBody\<close>

definition sensitiveFields :: "string list" where
  "sensitiveFields = [''password'', ''token'', ''secret'', ''apiKey'', ''api_key'']"

definition REDACTED :: val where
  "REDACTED = VStr ''[REDACTED]''"

text \<open>The loop \<open>for (const field of sensitiveFields)\<close> over the copy at address \<open>s\<close>.\<close>

fun redact :: "string list \<Rightarrow> nat \<Rightarrow> heap \<Rightarrow> heap" where
  "redact [] s h = h"
| "redact (field # rest) s h =
     redact rest s (if has_property h s field then set_property h s field REDACTED else h)"

text \<open>
  The function returns a value and may allocate and write: it takes the heap and returns
  the heap afterwards. A body that passes the guard is truthy and of type \<open>object\<close>, hence
  a reference.
\<close>

definition sanitizeRequestBody :: "heap \<Rightarrow> val \<Rightarrow> val \<times> heap" where
  "sanitizeRequestBody h body =
     (if \<not> truthy body \<or> typeof h body \<noteq> ''object'' then (body, h)
      else case body of
             VRef a \<Rightarrow> (let (sanitized, h1) = spread h a
                        in (VRef sanitized, redact sensitiveFields sanitized h1))
           | _ \<Rightarrow> (body, h))"

text \<open>Reading \<open>v.field\<close> from a value: \<open>undefined\<close> when the property is missing or the
  value is not an object.\<close>

fun get_property :: "heap \<Rightarrow> val \<Rightarrow> string \<Rightarrow> val" where
  "get_property h (VRef a) field =
     (if a < length h then (case props (h ! a) field of None \<Rightarrow> VUndefined | Some v \<Rightarrow> v)
      else VUndefined)"
| "get_property h _ field = VUndefined"

subsection \<open>The handlers\<close>

datatype RequestUser = User (user_id: "string option")

text \<open>What the middlewares read from an Express request: \<open>req.id\<close>, \<open>req.path\<close>,
  \<open>req.method\<close>, \<open>req.ip\<close>, \<open>req.get('user-agent')\<close>, \<open>req.body\<close>, \<open>req.query\<close>,
  \<open>req.user\<close>.\<close>

record Request =
  reqId :: "string option"
  reqPath :: string
  reqMethod :: string
  reqIp :: "string option"
  reqUserAgent :: "string option"
  reqBody :: val
  reqQuery :: val
  reqUser :: "RequestUser option"

text \<open>\<open>err: Error | AppError\<close>. A plain error has a message and possibly a stack.\<close>

record PlainError =
  errMessage :: string
  errStack :: "string option"

datatype thrown = NotAppError PlainError | IsAppError AppError

datatype LogLevel = LogError | LogWarn | LogInfo

fun getLogLevel :: "ErrorSeverity \<Rightarrow> LogLevel" where
  "getLogLevel CRITICAL = LogError"
| "getLogLevel HIGH = LogError"
| "getLogLevel MEDIUM = LogWarn"
| "getLogLevel LOW = LogInfo"

record LogRequest =
  lrId :: "string option"
  lrMethod :: string
  lrPath :: string
  lrIp :: "string option"
  lrUserAgent :: "string option"

record LogEntry =
  logLevel :: LogLevel
  logMessage :: string
  logError :: AppError
  logRequest :: LogRequest
  logBody :: val
  logQuery :: val

text \<open>\<open>res.status(statusCode).json(body)\<close>.\<close>

record Response =
  resStatus :: int
  resJson :: ErrorResponse

text \<open>
  \<open>errorHandler\<close>: the error is wrapped unless it is an \<open>AppError\<close>, its context is
  overwritten with the request's id, path, method and user agent, one log entry is written
  with the sanitized body, and the response carries \<open>statusCode || 500\<close> and the
  envelope. \<open>now\<close>, \<open>stk\<close> and \<open>node_env\<close> are read from the runtime.
\<close>

definition errorHandler ::
  "string \<Rightarrow> string \<Rightarrow> string option \<Rightarrow> heap \<Rightarrow> thrown \<Rightarrow> Request \<Rightarrow> LogEntry \<times> Response \<times> heap" where
  "errorHandler now stk node_env h err req =
     (let appError0 =
            (case err of
               NotAppError e \<Rightarrow>
                 InternalServerError now stk
                   (Some (or_str (Some (errMessage e)) ''An unexpected error occurred''))
                   (Some (emptyContext\<lparr>requestId := reqId req, path := Some (reqPath req),
                            httpMethod := Some (reqMethod req), userAgent := reqUserAgent req\<rparr>))
                   (Some \<lparr>origMessage = Some (errMessage e), origStack = errStack e\<rparr>)
             | IsAppError e \<Rightarrow> e);
          appError = appError0\<lparr>errContext := (errContext appError0)
                       \<lparr>requestId := reqId req, path := Some (reqPath req),
                        httpMethod := Some (reqMethod req), userAgent := reqUserAgent req\<rparr>\<rparr>;
          (body, h') = sanitizeRequestBody h (reqBody req);
          entry = \<lparr>logLevel = getLogLevel (severity appError),
                   logMessage = ErrorCode_str (code appError) @ '' - '' @ message appError,
                   logError = appError,
                   logRequest = \<lparr>lrId = reqId req, lrMethod = reqMethod req, lrPath = reqPath req,
                                  lrIp = reqIp req, lrUserAgent = reqUserAgent req\<rparr>,
                   logBody = body,
                   logQuery = reqQuery req\<rparr>;
          status = (if statusCode appError = 0 then 500 else statusCode appError)
      in (entry, \<lparr>resStatus = status, resJson = toJSON node_env appError\<rparr>, h'))"

text \<open>\<open>notFoundHandler\<close> builds an error and answers with status 404 and the error's
  envelope. The error it builds is named on its own, to speak about it.\<close>

definition notFoundHandler_error :: "string \<Rightarrow> string \<Rightarrow> Request \<Rightarrow> AppError" where
  "notFoundHandler_error now stk req =
     ValidationError now stk
       (Some (''Route '' @ reqMethod req @ '' '' @ reqPath req @ '' not found''))
       (Some (emptyContext\<lparr>requestId := reqId req, path := Some (reqPath req),
                httpMethod := Some (reqMethod req)\<rparr>))"

definition notFoundHandler :: "string \<Rightarrow> string \<Rightarrow> string option \<Rightarrow> Request \<Rightarrow> Response" where
  "notFoundHandler now stk node_env req =
     \<lparr>resStatus = 404, resJson = toJSON node_env (notFoundHandler_error now stk req)\<rparr>"

text \<open>The codes that the enumeration lists under "Not Found Errors (404)".\<close>

definition notFoundFamily :: "ErrorCode set" where
  "notFoundFamily = {NOT_FOUND, RESOURCE_NOT_FOUND}"

subsection \<open>Concrete requests\<close>

text \<open>A request for a route that does not exist.\<close>

definition unmatchedRequest :: Request where
  "unmatchedRequest = \<lparr>reqId = Some ''req_1'', reqPath = ''/api/nope'', reqMethod = ''GET'',
     reqIp = Some ''10.0.0.1'', reqUserAgent = Some ''curl/8.0'', reqBody = VUndefined,
     reqQuery = VUndefined, reqUser = None\<rparr>"

text \<open>
  A heap with two objects: cell 0 is \<open>{ password: "hunter2", name: "ann" }\<close> and cell 1
  is \<open>{ password: "topsecret", email: "a@b.c", user: <cell 0> }\<close>. The body of the
  request is cell 1.
\<close>

definition nestedHeap :: heap where
  "nestedHeap =
     [\<lparr>kind = PlainObject, props = [''password'' \<mapsto> VStr ''hunter2'', ''name'' \<mapsto> VStr ''ann'']\<rparr>,
      \<lparr>kind = PlainObject, props = [''password'' \<mapsto> VStr ''topsecret'', ''email'' \<mapsto> VStr ''a@b.c'',
                                    ''user'' \<mapsto> VRef 0]\<rparr>]"

definition loginRequest :: Request where
  "loginRequest = \<lparr>reqId = Some ''req_2'', reqPath = ''/api/auth/login'', reqMethod = ''POST'',
     reqIp = Some ''10.0.0.1'', reqUserAgent = Some ''curl/8.0'', reqBody = VRef 1,
     reqQuery = VUndefined, reqUser = None\<rparr>"

definition someFailure :: thrown where
  "someFailure = NotAppError \<lparr>errMessage = ''boom'', errStack = None\<rparr>"

text \<open>The body that the error handler logs for the login request, and the heap after.\<close>

definition loggedBody :: val where
  "loggedBody = logBody (fst (errorHandler ''2026-01-01T00:00:00.000Z'' ''Error'' None
                                nestedHeap someFailure loginRequest))"

definition heapAfterLogging :: heap where
  "heapAfterLogging = snd (snd (errorHandler ''2026-01-01T00:00:00.000Z'' ''Error'' None
                                  nestedHeap someFailure loginRequest))"


section \<open>Rate limiting (security middleware)\<close>

text \<open>Source: \<^verbatim>\<open>src/outputs/workspace_output_1767034371_2385.txt\<close>, lines 62 to 144.\<close>

text \<open>
  The three limiters are calls of \<open>rateLimit\<close> with an options object. The options that
  matter here are \<open>windowMs\<close>, \<open>max\<close> (here \<open>max_requests\<close>), the message of the error
  that \<open>handler\<close> throws, and \<open>skip\<close>, which only the general limiter passes.
\<close>

record RateLimitOptions =
  windowMs :: int
  max_requests :: int
  handlerMessage :: string
  skip :: "(Request \<Rightarrow> bool) option"

definition apiRateLimit :: RateLimitOptions where
  "apiRateLimit = \<lparr>windowMs = 15 * 60 * 1000, max_requests = 100,
     handlerMessage = ''Rate limit exceeded'',
     skip = Some (\<lambda>req. reqPath req = ''/health'')\<rparr>"

definition authRateLimit :: RateLimitOptions where
  "authRateLimit = \<lparr>windowMs = 15 * 60 * 1000, max_requests = 5,
     handlerMessage = ''Authentication rate limit exceeded'',
     skip = None\<rparr>"

definition aiRateLimit :: RateLimitOptions where
  "aiRateLimit = \<lparr>windowMs = 60 * 60 * 1000, max_requests = 10,
     handlerMessage = ''AI rate limit exceeded'',
     skip = None\<rparr>"

text \<open>The \<open>handler\<close> option: each limiter throws a \<open>RateLimitError\<close> with its message and
  \<open>{ requestId: req.id || 'unknown', path, method }\<close>.\<close>

definition limitHandler :: "string \<Rightarrow> string \<Rightarrow> RateLimitOptions \<Rightarrow> Request \<Rightarrow> AppError" where
  "limitHandler now stk opts req =
     RateLimitError now stk (Some (handlerMessage opts))
       (Some (emptyContext\<lparr>requestId := Some (or_str (reqId req) ''unknown''),
                path := Some (reqPath req), httpMethod := Some (reqMethod req)\<rparr>))"

record RateLimitCounter =
  windowStart :: int
  hits :: int

type_synonym counters = "string option \<rightharpoonup> RateLimitCounter"

datatype decision = Pass | Limited AppError

text \<open>
  Modelled from the spec: the middleware that \<open>rateLimit(options)\<close> returns belongs to the
  package express-rate-limit, which is not under src/. Following the specification of the
  rate limiter: the caller key is the network address; a request that the rule's \<open>skip\<close>
  exempts is neither counted nor rejected; otherwise the key's counter is incremented, or
  reset to 1 with a fresh window start when \<open>now - windowStart \<ge> windowDuration\<close> or when
  the key is new; the request is rejected when the count exceeds the maximum. A rule
  without \<open>skip\<close> exempts nothing. \<open>t\<close> is the clock in milliseconds.
\<close>

definition rateLimit ::
  "RateLimitOptions \<Rightarrow> string \<Rightarrow> string \<Rightarrow> int \<Rightarrow> counters \<Rightarrow> Request \<Rightarrow> decision \<times> counters" where
  "rateLimit opts now stk t store req =
     (if (case skip opts of None \<Rightarrow> False | Some f \<Rightarrow> f req) then (Pass, store)
      else
        let key = reqIp req;
            c = (case store key of
                   None \<Rightarrow> \<lparr>windowStart = t, hits = 1\<rparr>
                 | Some c0 \<Rightarrow> if t - windowStart c0 \<ge> windowMs opts
                              then \<lparr>windowStart = t, hits = 1\<rparr>
                              else c0\<lparr>hits := hits c0 + 1\<rparr>)
        in (if hits c > max_requests opts then Limited (limitHandler now stk opts req) else Pass,
            store(key \<mapsto> c)))"

subsection \<open>A concrete health check\<close>

definition healthRequest :: Request where
  "healthRequest = \<lparr>reqId = Some ''req_3'', reqPath = ''/health'', reqMethod = ''GET'',
     reqIp = Some ''10.0.0.9'', reqUserAgent = Some ''kube-probe/1.29'', reqBody = VUndefined,
     reqQuery = VUndefined, reqUser = None\<rparr>"

text \<open>The caller of the health check has already used up five requests of the current
  window, which began at \<open>t = 0\<close>.\<close>

definition usedUp :: counters where
  "usedUp = [Some ''10.0.0.9'' \<mapsto> \<lparr>windowStart = 0, hits = 5\<rparr>]"


section \<open>Audit trail (audit middleware and logger)\<close>

text \<open>Source: \<open>auditLogMiddleware\<close> in
  \<^verbatim>\<open>src/outputs/workspace_output_1767034347_9521.txt\<close>, lines 12 to 40, and \<open>auditLog\<close>
  in \<^verbatim>\<open>src/backend/src/services/UserService.ts\<close>, lines 325 to 338.\<close>

datatype AuditResult = AuditSuccess | AuditFailure

record AuditDetails =
  detMethod :: string
  detPath :: string
  detIp :: "string option"
  detUserAgent :: "string option"
  detStatusCode :: int

record AuditRecord =
  auditAction :: string
  auditUserId :: string
  auditDetails :: AuditDetails
  auditResult :: AuditResult
  auditTimestamp :: string

text \<open>\<open>auditLog\<close> writes one entry to the logger; \<open>now\<close> is \<open>new Date().toISOString()\<close>.\<close>

definition auditLog :: "string \<Rightarrow> string \<Rightarrow> string \<Rightarrow> AuditDetails \<Rightarrow> AuditResult \<Rightarrow> AuditRecord" where
  "auditLog now action uid details result =
     \<lparr>auditAction = action, auditUserId = uid, auditDetails = details, auditResult = result,
      auditTimestamp = now\<rparr>"

text \<open>
  What a call of \<open>res.end\<close> does, in order: audit records written and the original
  \<open>end\<close> of the response, which finalizes it. \<open>res.end\<close> is a field of the response
  object that the middleware replaces; it reads the clock and \<open>res.statusCode\<close> when it is
  called, so both are its arguments.
\<close>

datatype effect = AuditLogged AuditRecord | OriginalEnd

record ServerResponse =
  resStatusCode :: int
  resEnd :: "string \<Rightarrow> int \<Rightarrow> effect list"

definition newResponse :: ServerResponse where
  "newResponse = \<lparr>resStatusCode = 200, resEnd = (\<lambda>now sc. [OriginalEnd])\<rparr>"

definition auditLogMiddleware :: "string \<Rightarrow> Request \<Rightarrow> ServerResponse \<Rightarrow> ServerResponse" where
  "auditLogMiddleware action req res =
     (let originalEnd = resEnd res
      in res\<lparr>resEnd := (\<lambda>now sc.
           let uid = or_str (Option.bind (reqUser req) user_id) ''anonymous'';
               result = (if sc \<ge> 200 \<and> sc < 400 then AuditSuccess else AuditFailure)
           in AuditLogged (auditLog now action uid
                \<lparr>detMethod = reqMethod req, detPath = reqPath req, detIp = reqIp req,
                 detUserAgent = reqUserAgent req, detStatusCode = sc\<rparr> result)
              # originalEnd now sc)\<rparr>)"

text \<open>\<open>res.status(sc).json(body)\<close> sets the status code and ends the response once,
  through the response's current \<open>end\<close>.\<close>

definition respond :: "string \<Rightarrow> int \<Rightarrow> ServerResponse \<Rightarrow> effect list" where
  "respond now sc res = resEnd (res\<lparr>resStatusCode := sc\<rparr>) now sc"

text \<open>
  An audited call: the middleware runs, then the wrapped handler. The handler either
  answers with some status itself, or throws, and then the central error handler answers.
\<close>

datatype handlerOutcome = Responds int | Throws thrown

text \<open>The status code of the answer.\<close>

definition finalStatus ::
  "string \<Rightarrow> string \<Rightarrow> string option \<Rightarrow> heap \<Rightarrow> Request \<Rightarrow> handlerOutcome \<Rightarrow> int" where
  "finalStatus now stk node_env h req outcome =
     (case outcome of
        Responds sc \<Rightarrow> sc
      | Throws err \<Rightarrow> resStatus (fst (snd (errorHandler now stk node_env h err req))))"

definition auditedCall ::
  "string \<Rightarrow> string \<Rightarrow> string option \<Rightarrow> heap \<Rightarrow> string \<Rightarrow> Request \<Rightarrow> handlerOutcome \<Rightarrow> effect list" where
  "auditedCall now stk node_env h action req outcome =
     respond now (finalStatus now stk node_env h req outcome)
       (auditLogMiddleware action req newResponse)"

text \<open>The audit records of a trace, in order.\<close>

fun auditRecords :: "effect list \<Rightarrow> AuditRecord list" where
  "auditRecords [] = []"
| "auditRecords (AuditLogged r # es) = r # auditRecords es"
| "auditRecords (OriginalEnd # es) = auditRecords es"

subsection \<open>A concrete audited login\<close>

definition loginByAnn :: Request where
  "loginByAnn = \<lparr>reqId = Some ''req_4'', reqPath = ''/api/auth/login'', reqMethod = ''POST'',
     reqIp = Some ''10.0.0.1'', reqUserAgent = Some ''curl/8.0'', reqBody = VUndefined,
     reqQuery = VUndefined, reqUser = Some (User (Some ''ann''))\<rparr>"

definition loginRecord :: AuditRecord where
  "loginRecord = \<lparr>auditAction = ''USER_LOGIN'', auditUserId = ''ann'',
     auditDetails = \<lparr>detMethod = ''POST'', detPath = ''/api/auth/login'', detIp = Some ''10.0.0.1'',
                     detUserAgent = Some ''curl/8.0'', detStatusCode = 200\<rparr>,
     auditResult = AuditSuccess, auditTimestamp = ''2026-01-01T00:00:00.000Z''\<rparr>"

text \<open>The position of the first event of a kind in a trace (its length when absent).\<close>

fun firstIndex :: "effect list \<Rightarrow> (effect \<Rightarrow> bool) \<Rightarrow> nat" where
  "firstIndex [] p = 0"
| "firstIndex (x # xs) p = (if p x then 0 else Suc (firstIndex xs p))"

fun isAudit :: "effect \<Rightarrow> bool" where
  "isAudit (AuditLogged r) = True"
| "isAudit OriginalEnd = False"

fun isEnd :: "effect \<Rightarrow> bool" where
  "isEnd OriginalEnd = True"
| "isEnd (AuditLogged r) = False"



section \<open>Properties of the error taxonomy\<close>

lemmas error_class_defs =
  ValidationError_def AuthenticationError_def AuthorizationError_def NotFoundError_def
  ConflictError_def RateLimitError_def DatabaseError_def ExternalServiceError_def
  CircuitBreakerError_def InternalServerError_def AppError_new_def

text \<open>
  Claim C6, as the code has it. Constructing an error of any kind without an explicit
  override yields \<open>isOperational = true\<close>, except for two kinds: database errors and
  internal server errors are built with \<open>isOperational = false\<close>. The claim names the
  database kind as the only exception; \<open>InternalServerError\<close> passes \<open>false\<close> to the base
  constructor as well.
\<close>

theorem operational_default:
  "isOperational (construct K now stk msg ctx) = (K \<noteq> KDatabase \<and> K \<noteq> KInternal)"
  by (cases K) (simp_all add: error_class_defs Let_def)

theorem operational_default_witness:
  "isOperational (construct KValidation ''2026-01-01T00:00:00.000Z'' ''Error'' None None) = True
   \<and> isOperational (construct KDatabase ''2026-01-01T00:00:00.000Z'' ''Error'' None None) = False"
  using operational_default[of KValidation "''2026-01-01T00:00:00.000Z''" "''Error''" None None]
        operational_default[of KDatabase "''2026-01-01T00:00:00.000Z''" "''Error''" None None]
  by simp

text \<open>
  Claim C6 as stated fails: an internal server error, which is not of the database kind,
  is not operational by default.
\<close>

theorem internal_not_operational_counterexample:
  "KInternal \<noteq> KDatabase
   \<and> isOperational (construct KInternal ''2026-01-01T00:00:00.000Z'' ''Error'' None None) = False"
  by (simp add: InternalServerError_def AppError_new_def Let_def)


section \<open>Properties of the circuit breaker\<close>

subsection \<open>Basic facts\<close>

lemma run_append: "run rt (xs @ ys) s = run rt ys (run rt xs s)"
  by (induction xs arbitrary: s) simp_all

lemma onFailure_facts:
  "config (breakerAfter (onFailure rt cb err w)) = config cb"
  "failureCount (state (breakerAfter (onFailure rt cb err w))) = failureCount (state cb) + 1"
  "successCount (state (breakerAfter (onFailure rt cb err w))) = successCount (state cb)"
  "lastFailureTime (state (breakerAfter (onFailure rt cb err w))) = Some (dateNow rt w)"
  "isOpen (state (breakerAfter (onFailure rt cb err w)))
     = (isOpen (state cb)
        \<or> (\<not> nullish err \<and> failureThreshold (config cb) \<le> failureCount (state cb) + 1))"
  by (auto simp: onFailure_def Let_def)

lemma onSuccess_facts:
  "config (onSuccess rt cb w) = config cb"
  "failureCount (state (onSuccess rt cb w)) = 0"
  "\<not> isOpen (state cb) \<Longrightarrow> \<not> isOpen (state (onSuccess rt cb w))"
  by (auto simp: onSuccess_def Let_def)

lemma resume_breaker:
  "snd (execute_resume rt cb (Fulfilled r) w) = onSuccess rt cb w"
  "snd (execute_resume rt cb (Rejected err) w) = breakerAfter (onFailure rt cb err w)"
  by (simp_all add: execute_resume_def split: failure_handling.splits)

lemma resume_result:
  "fst (execute_resume rt cb (Fulfilled r) w) = Fulfilled r"
  "fst (execute_resume rt cb (Rejected err) w)
     = (if nullish err then Rejected TypeError else Rejected (OperationError err))"
  by (simp_all add: execute_resume_def onFailure_def Let_def)

lemma resume_config [simp]: "config (snd (execute_resume rt cb outcome w)) = config cb"
  by (cases outcome) (simp_all add: resume_breaker onFailure_facts onSuccess_facts)

lemma begin_config: "execute_begin rt cb w = Admitted cb1 \<Longrightarrow> config cb1 = config cb"
  by (auto simp: execute_begin_def split: if_splits)

lemma begin_closed: "\<not> isOpen (state cb) \<Longrightarrow> execute_begin rt cb w = Admitted cb"
  by (simp add: execute_begin_def)

lemma begin_admitted_closed: "execute_begin rt cb w = Admitted cb1 \<Longrightarrow> \<not> isOpen (state cb1)"
  by (auto simp: execute_begin_def split: if_splits)

lemma execute_alone_refused:
  "execute_begin rt cb w = Refused e \<Longrightarrow>
   execute_alone rt cb operation w = (Rejected (CircuitOpen e), cb, w)"
  by (simp add: execute_alone_def)

lemma execute_alone_admitted:
  "execute_begin rt cb w = Admitted cb1 \<Longrightarrow>
   execute_alone rt cb operation w =
     (fst (execute_resume rt cb1 (fst (operation w)) (snd (operation w))),
      snd (execute_resume rt cb1 (fst (operation w)) (snd (operation w))),
      snd (operation w))"
  by (simp add: execute_alone_def split_beta)

lemma execute_alone_config [simp]:
  "config (fst (snd (execute_alone rt cb operation w))) = config cb"
proof (cases "execute_begin rt cb w")
  case (Refused e)
  then show ?thesis by (simp add: execute_alone_refused)
next
  case (Admitted cb1)
  then show ?thesis by (simp add: execute_alone_admitted begin_config)
qed

lemma step_config [simp]: "config (fst (step rt a s)) = config (fst s)"
proof (cases s)
  case (Pair cb w)
  then show ?thesis
    by (cases a) (auto simp: reset_def dest: begin_config split: admission.splits)
qed

lemma run_config [simp]: "config (fst (run rt acts s)) = config (fst s)"
  by (induction acts arbitrary: s) simp_all

subsection \<open>The scenario, evaluated\<close>

lemmas breaker_defs =
  execute_alone_def execute_begin_def execute_resume_def onFailure_def onSuccess_def
  shouldAttemptReset_def CircuitBreaker_new_def initialState_def Let_def

lemma scenarioBreaker_state:
  "state scenarioBreaker = initialState"
  "config scenarioBreaker = \<lparr>failureThreshold = 3, successThreshold = 2, timeout = 60000,
      monitoringPeriod = 300000\<rparr>"
  by (simp_all add: scenarioBreaker_def scenarioConfig_def CircuitBreaker_new_def)

lemma openedBreaker_state:
  "state openedBreaker = \<lparr>isOpen = True, failureCount = 3, successCount = 0,
      lastFailureTime = Some 1000, lastSuccessTime = None\<rparr>"
  "config openedBreaker = \<lparr>failureThreshold = 3, successThreshold = 2, timeout = 60000,
      monitoringPeriod = 300000\<rparr>"
  by (simp_all add: openedBreaker_def threeFailures_def scenarioBreaker_def scenarioConfig_def
        clockRuntime_def failsAt_def breaker_defs)

lemma openedBreaker_reached:
  "openedBreaker = fst (run clockRuntime threeFailures
      (CircuitBreaker_new ''ai-provider'' scenarioConfig, 997))"
  by (simp add: openedBreaker_def scenarioBreaker_def)

lemma afterTrialSuccess_state:
  "state afterTrialSuccess = \<lparr>isOpen = False, failureCount = 0, successCount = 1,
      lastFailureTime = Some 1000, lastSuccessTime = Some 61002\<rparr>"
  "config afterTrialSuccess = \<lparr>failureThreshold = 3, successThreshold = 2, timeout = 60000,
      monitoringPeriod = 300000\<rparr>"
  by (simp_all add: afterTrialSuccess_def openedBreaker_state succeedsAt_def clockRuntime_def
        execute_alone_def execute_begin_def execute_resume_def onSuccess_def
        shouldAttemptReset_def Let_def)

text \<open>
  Three calls that reject with \<open>undefined\<close> are counted, but the breaker stays closed
  although the count has reached the threshold, and the caller of each gets the
  \<open>TypeError\<close>, not the operation's error.
\<close>

lemma afterThreeUndefined_state:
  "state afterThreeUndefined = \<lparr>isOpen = False, failureCount = 3, successCount = 0,
      lastFailureTime = Some 1000, lastSuccessTime = None\<rparr>"
  "failureThreshold (config afterThreeUndefined) = 3"
  "fst (execute_alone clockRuntime scenarioBreaker (rejectsUndefinedAt 998) 997) = Rejected TypeError"
  by (simp_all add: afterThreeUndefined_def threeUndefined_def scenarioBreaker_def
        scenarioConfig_def clockRuntime_def rejectsUndefinedAt_def breaker_defs)

text \<open>
  Overlapping calls reach states that calls taken one after the other never reach: here
  the breaker is open although no failure is counted.
\<close>

lemma afterOverlap_state:
  "state afterOverlap = \<lparr>isOpen = True, failureCount = 0, successCount = 1,
      lastFailureTime = Some 61001, lastSuccessTime = Some 61001\<rparr>"
  by (simp add: afterOverlap_def overlapping_def openedBreaker_state clockRuntime_def
        execute_begin_def execute_resume_def onFailure_def onSuccess_def
        shouldAttemptReset_def Let_def)

text \<open>From that state a failed trial, run alone, leaves the breaker closed.\<close>

lemma afterOverlap_failed_trial:
  "\<not> isOpen (state (fst (snd (execute_alone clockRuntime afterOverlap (failsAt 130001) 130000))))"
  by (simp add: afterOverlap_state failsAt_def clockRuntime_def scenarioBreaker_def
        scenarioConfig_def afterOverlap_def overlapping_def openedBreaker_def threeFailures_def
        breaker_defs)

subsection \<open>An open breaker refuses calls until the timeout has passed\<close>

text \<open>
  Claim C1, as the code has it. Take a breaker that is open and whose last failure was
  recorded at a time \<open>t\<close> (other than the epoch itself, which the code reads as "no
  failure"). A call of \<open>execute\<close> made while \<open>now - t \<le> timeout\<close> is refused in its
  first part: it throws the circuit-open error (code \<open>CIRCUIT_BREAKER_OPEN\<close>, status
  503), leaves the breaker as it was and does not invoke the operation, so the world is
  returned untouched, whatever the operation is. A call made when \<open>now - t > timeout\<close>
  is admitted as a trial: its first part clears \<open>isOpen\<close> and zeroes the success counter,
  so the breaker leaves the open phase there, and the operation is invoked. For a trial
  that runs alone, with no other call touching the breaker while its operation is
  awaited, the caller gets the result of the second part of \<open>execute\<close> on the admitted
  breaker, and after a fulfilled operation the breaker is not open. The comparison is
  strict: at \<open>now - t = timeout\<close> the call is still refused.
\<close>

theorem open_breaker_admission:
  assumes "isOpen (state cb)" and "lastFailureTime (state cb) = Some t" and "t \<noteq> 0"
  shows "(dateNow rt w - t \<le> timeout (config cb) \<longrightarrow>
            execute_begin rt cb w = Refused (circuitOpenError rt cb w)
          \<and> execute_alone rt cb operation w
              = (Rejected (CircuitOpen (circuitOpenError rt cb w)), cb, w)
          \<and> code (circuitOpenError rt cb w) = CIRCUIT_BREAKER_OPEN
          \<and> statusCode (circuitOpenError rt cb w) = 503)
       \<and> (dateNow rt w - t > timeout (config cb) \<longrightarrow>
            execute_begin rt cb w
              = Admitted (cb\<lparr>state := (state cb)\<lparr>isOpen := False, successCount := 0\<rparr>\<rparr>)
          \<and> snd (snd (execute_alone rt cb operation w)) = snd (operation w)
          \<and> fst (execute_alone rt cb operation w)
              = fst (execute_resume rt (cb\<lparr>state := (state cb)\<lparr>isOpen := False, successCount := 0\<rparr>\<rparr>)
                       (fst (operation w)) (snd (operation w)))
          \<and> fst (snd (execute_alone rt cb operation w))
              = snd (execute_resume rt (cb\<lparr>state := (state cb)\<lparr>isOpen := False, successCount := 0\<rparr>\<rparr>)
                       (fst (operation w)) (snd (operation w)))
          \<and> (\<forall>r. fst (operation w) = Fulfilled r \<longrightarrow>
                fst (execute_alone rt cb operation w) = Fulfilled r
              \<and> \<not> isOpen (state (fst (snd (execute_alone rt cb operation w))))))"
proof (intro conjI impI)
  assume early: "dateNow rt w - t \<le> timeout (config cb)"
  with assms show refused: "execute_begin rt cb w = Refused (circuitOpenError rt cb w)"
    by (simp add: execute_begin_def shouldAttemptReset_def)
  then show "execute_alone rt cb operation w
      = (Rejected (CircuitOpen (circuitOpenError rt cb w)), cb, w)"
    by (rule execute_alone_refused)
  show "code (circuitOpenError rt cb w) = CIRCUIT_BREAKER_OPEN"
    by (simp add: circuitOpenError_def CircuitBreakerError_def AppError_new_def Let_def)
  show "statusCode (circuitOpenError rt cb w) = 503"
    by (simp add: circuitOpenError_def CircuitBreakerError_def AppError_new_def Let_def)
next
  let ?cb1 = "cb\<lparr>state := (state cb)\<lparr>isOpen := False, successCount := 0\<rparr>\<rparr>"
  assume late: "timeout (config cb) < dateNow rt w - t"
  with assms show adm: "execute_begin rt cb w = Admitted ?cb1"
    by (simp add: execute_begin_def shouldAttemptReset_def)
  note alone = execute_alone_admitted[OF adm, of operation]
  show "snd (snd (execute_alone rt cb operation w)) = snd (operation w)"
    by (simp add: alone)
  show "fst (execute_alone rt cb operation w)
      = fst (execute_resume rt ?cb1 (fst (operation w)) (snd (operation w)))"
    by (simp add: alone)
  show "fst (snd (execute_alone rt cb operation w))
      = snd (execute_resume rt ?cb1 (fst (operation w)) (snd (operation w)))"
    by (simp add: alone)
  show "\<forall>r. fst (operation w) = Fulfilled r \<longrightarrow>
          fst (execute_alone rt cb operation w) = Fulfilled r
        \<and> \<not> isOpen (state (fst (snd (execute_alone rt cb operation w))))"
    by (simp add: alone resume_result resume_breaker onSuccess_facts)
qed

theorem open_breaker_admission_witness:
  "isOpen (state openedBreaker) \<and> lastFailureTime (state openedBreaker) = Some 1000
   \<and> execute_begin clockRuntime openedBreaker 61000
       = Refused (circuitOpenError clockRuntime openedBreaker 61000)
   \<and> execute_alone clockRuntime openedBreaker (succeedsAt 61000) 61000
       = (Rejected (CircuitOpen (circuitOpenError clockRuntime openedBreaker 61000)), openedBreaker, 61000)
   \<and> execute_begin clockRuntime openedBreaker 61001
       = Admitted (openedBreaker\<lparr>state := (state openedBreaker)\<lparr>isOpen := False, successCount := 0\<rparr>\<rparr>)
   \<and> fst (execute_alone clockRuntime openedBreaker (succeedsAt 61002) 61001) = Fulfilled ()
   \<and> \<not> isOpen (state (fst (snd (execute_alone clockRuntime openedBreaker (succeedsAt 61002) 61001))))"
proof -
  have hyps: "isOpen (state openedBreaker)" "lastFailureTime (state openedBreaker) = Some 1000"
      "(1000::int) \<noteq> 0"
    by (simp_all add: openedBreaker_state)
  have early: "dateNow clockRuntime 61000 - 1000 \<le> timeout (config openedBreaker)"
    by (simp add: openedBreaker_state clockRuntime_def)
  have late: "dateNow clockRuntime 61001 - 1000 > timeout (config openedBreaker)"
    by (simp add: openedBreaker_state clockRuntime_def)
  have op: "fst (succeedsAt 61002 61001) = Fulfilled ()"
    by (simp add: succeedsAt_def)
  from open_breaker_admission[OF hyps, of clockRuntime 61000 "succeedsAt 61000"] early
  have refused: "execute_begin clockRuntime openedBreaker 61000
       = Refused (circuitOpenError clockRuntime openedBreaker 61000)"
    "execute_alone clockRuntime openedBreaker (succeedsAt 61000) 61000
       = (Rejected (CircuitOpen (circuitOpenError clockRuntime openedBreaker 61000)), openedBreaker, 61000)"
    by blast+
  from open_breaker_admission[OF hyps, of clockRuntime 61001 "succeedsAt 61002"] late op
  have trial: "execute_begin clockRuntime openedBreaker 61001
       = Admitted (openedBreaker\<lparr>state := (state openedBreaker)\<lparr>isOpen := False, successCount := 0\<rparr>\<rparr>)"
      "fst (execute_alone clockRuntime openedBreaker (succeedsAt 61002) 61001) = Fulfilled ()"
      "\<not> isOpen (state (fst (snd (execute_alone clockRuntime openedBreaker (succeedsAt 61002) 61001))))"
    by blast+
  from hyps refused trial show ?thesis by blast
qed

text \<open>
  Claim C1 as stated fails at the boundary. The scenario breaker opened with its last
  failure at \<open>t = 1000\<close> and has a timeout of 60000. A call at \<open>t = 61000\<close>, when exactly
  the timeout has elapsed, is refused with the circuit-open error, and the operation is
  not invoked.
\<close>

theorem open_boundary_counterexample:
  "isOpen (state openedBreaker)
   \<and> lastFailureTime (state openedBreaker) = Some 1000
   \<and> timeout (config openedBreaker) = 60000
   \<and> dateNow clockRuntime 61000 - 1000 \<ge> timeout (config openedBreaker)
   \<and> execute_alone clockRuntime openedBreaker (succeedsAt 61005) 61000
       = (Rejected (CircuitOpen (circuitOpenError clockRuntime openedBreaker 61000)), openedBreaker, 61000)"
  by (simp add: openedBreaker_state execute_alone_def execute_begin_def shouldAttemptReset_def)
     (simp add: clockRuntime_def)

subsection \<open>A failed trial\<close>

text \<open>When calls do not overlap, an open breaker has reached its failure threshold: no
  step clears the failure count while the breaker is open.\<close>

lemma execute_alone_tripped:
  assumes "isOpen (state cb) \<longrightarrow> failureThreshold (config cb) \<le> failureCount (state cb)"
  shows "isOpen (state (fst (snd (execute_alone rt cb operation w))))
           \<longrightarrow> failureThreshold (config cb)
                 \<le> failureCount (state (fst (snd (execute_alone rt cb operation w))))"
proof (cases "execute_begin rt cb w")
  case (Refused e)
  with assms show ?thesis by (simp add: execute_alone_refused)
next
  case (Admitted cb1)
  note closed = begin_admitted_closed[OF Admitted]
  note cfg = begin_config[OF Admitted]
  show ?thesis
  proof (cases "fst (operation w)")
    case (Fulfilled r)
    with closed show ?thesis
      by (simp add: execute_alone_admitted[OF Admitted] resume_breaker onSuccess_facts)
  next
    case (Rejected err)
    with closed cfg show ?thesis
      by (simp add: execute_alone_admitted[OF Admitted] resume_breaker onFailure_facts)
  qed
qed

lemma step_tripped:
  assumes "alone a"
      and "isOpen (state (fst s)) \<longrightarrow> failureThreshold (config (fst s)) \<le> failureCount (state (fst s))"
  shows "isOpen (state (fst (step rt a s)))
           \<longrightarrow> failureThreshold (config (fst s)) \<le> failureCount (state (fst (step rt a s)))"
proof (cases s)
  case (Pair cb w)
  with assms show ?thesis
    by (cases a) (simp_all add: execute_alone_tripped reset_def initialState_def)
qed

lemma run_tripped:
  assumes "list_all alone acts"
      and "isOpen (state (fst s)) \<longrightarrow> failureThreshold (config (fst s)) \<le> failureCount (state (fst s))"
  shows "isOpen (state (fst (run rt acts s)))
           \<longrightarrow> failureThreshold (config (fst s)) \<le> failureCount (state (fst (run rt acts s)))"
  using assms
proof (induction acts arbitrary: s)
  case Nil
  then show ?case by simp
next
  case (Cons a acts)
  from Cons.prems(1) have a: "alone a" and rest: "list_all alone acts" by simp_all
  have "isOpen (state (fst (step rt a s)))
          \<longrightarrow> failureThreshold (config (fst (step rt a s))) \<le> failureCount (state (fst (step rt a s)))"
    using step_tripped[OF a Cons.prems(2), of rt] by simp
  from Cons.IH[OF rest this] show ?case by simp
qed

text \<open>
  Claim C2, as the code has it. The breaker has no half-open phase of its own: admitting
  a trial clears \<open>isOpen\<close>, and from then on the breaker is simply not open. Take a call
  whose operation rejects with a value other than \<open>null\<close> and \<open>undefined\<close>. Whenever its
  second part runs, on whatever breaker, it records \<open>lastFailureTime\<close>, leaves the
  success counter as it was, and leaves the breaker open exactly if it was open or the
  failure count has reached \<open>failureThreshold\<close>. For a breaker reached from a fresh one
  by calls that do not overlap, resets and the passing of time, and a call that runs
  alone: if the breaker is open and the call is admitted as the trial, then afterwards the
  breaker is open again, \<open>lastFailureTime\<close> is the time of the failure and the success
  counter is zero; if the breaker is not open (as after one or more trial successes), the
  failure records \<open>lastFailureTime\<close>, leaves the success counter as it was, and opens the
  breaker exactly when the failure count reaches \<open>failureThreshold\<close>.
\<close>

theorem trial_failure_reopens:
  assumes "cb = fst (run rt acts (CircuitBreaker_new nm cfg, w0))" and "list_all alone acts"
      and "operation w = (Rejected (RValue e), w')"
  shows "(isOpen (state cb) \<and> shouldAttemptReset rt cb w \<longrightarrow>
            fst (execute_alone rt cb operation w) = Rejected (OperationError (RValue e))
          \<and> isOpen (state (fst (snd (execute_alone rt cb operation w))))
          \<and> lastFailureTime (state (fst (snd (execute_alone rt cb operation w)))) = Some (dateNow rt w')
          \<and> successCount (state (fst (snd (execute_alone rt cb operation w)))) = 0)
       \<and> (\<not> isOpen (state cb) \<longrightarrow>
            fst (execute_alone rt cb operation w) = Rejected (OperationError (RValue e))
          \<and> isOpen (state (fst (snd (execute_alone rt cb operation w))))
              = (failureThreshold (config cb) \<le> failureCount (state cb) + 1)
          \<and> lastFailureTime (state (fst (snd (execute_alone rt cb operation w)))) = Some (dateNow rt w')
          \<and> successCount (state (fst (snd (execute_alone rt cb operation w)))) = successCount (state cb))
       \<and> (fst (execute_resume rt cb0 (fst (operation w)) w') = Rejected (OperationError (RValue e))
          \<and> isOpen (state (snd (execute_resume rt cb0 (fst (operation w)) w')))
              = (isOpen (state cb0) \<or> failureThreshold (config cb0) \<le> failureCount (state cb0) + 1)
          \<and> lastFailureTime (state (snd (execute_resume rt cb0 (fst (operation w)) w'))) = Some (dateNow rt w')
          \<and> successCount (state (snd (execute_resume rt cb0 (fst (operation w)) w')))
              = successCount (state cb0))"
proof (intro conjI impI)
  have inv: "isOpen (state cb) \<longrightarrow> failureThreshold (config cb) \<le> failureCount (state cb)"
    using run_tripped[OF assms(2), of "(CircuitBreaker_new nm cfg, w0)" rt] assms(1)
    by (simp add: CircuitBreaker_new_def initialState_def)
  have op: "fst (operation w) = Rejected (RValue e)" "snd (operation w) = w'"
    using assms(3) by simp_all
  {
    assume trial: "isOpen (state cb) \<and> shouldAttemptReset rt cb w"
    let ?cb1 = "cb\<lparr>state := (state cb)\<lparr>isOpen := False, successCount := 0\<rparr>\<rparr>"
    from trial have adm: "execute_begin rt cb w = Admitted ?cb1"
      by (simp add: execute_begin_def)
    note alone = execute_alone_admitted[OF adm, of operation]
    show "fst (execute_alone rt cb operation w) = Rejected (OperationError (RValue e))"
      by (simp add: alone op resume_result)
    show "isOpen (state (fst (snd (execute_alone rt cb operation w))))"
      using inv trial by (simp add: alone op resume_breaker onFailure_facts)
    show "lastFailureTime (state (fst (snd (execute_alone rt cb operation w)))) = Some (dateNow rt w')"
      by (simp add: alone op resume_breaker onFailure_facts)
    show "successCount (state (fst (snd (execute_alone rt cb operation w)))) = 0"
      by (simp add: alone op resume_breaker onFailure_facts)
  }
  {
    assume closed: "\<not> isOpen (state cb)"
    note alone = execute_alone_admitted[OF begin_closed[OF closed, of rt w], of operation]
    show "fst (execute_alone rt cb operation w) = Rejected (OperationError (RValue e))"
      by (simp add: alone op resume_result)
    show "isOpen (state (fst (snd (execute_alone rt cb operation w))))
            = (failureThreshold (config cb) \<le> failureCount (state cb) + 1)"
      using closed by (simp add: alone op resume_breaker onFailure_facts)
    show "lastFailureTime (state (fst (snd (execute_alone rt cb operation w)))) = Some (dateNow rt w')"
      by (simp add: alone op resume_breaker onFailure_facts)
    show "successCount (state (fst (snd (execute_alone rt cb operation w)))) = successCount (state cb)"
      by (simp add: alone op resume_breaker onFailure_facts)
  }
  show "fst (execute_resume rt cb0 (fst (operation w)) w') = Rejected (OperationError (RValue e))"
    by (simp add: op resume_result)
  show "isOpen (state (snd (execute_resume rt cb0 (fst (operation w)) w')))
          = (isOpen (state cb0) \<or> failureThreshold (config cb0) \<le> failureCount (state cb0) + 1)"
    by (simp add: op resume_breaker onFailure_facts)
  show "lastFailureTime (state (snd (execute_resume rt cb0 (fst (operation w)) w'))) = Some (dateNow rt w')"
    by (simp add: op resume_breaker onFailure_facts)
  show "successCount (state (snd (execute_resume rt cb0 (fst (operation w)) w')))
          = successCount (state cb0)"
    by (simp add: op resume_breaker onFailure_facts)
qed

theorem trial_failure_reopens_witness:
  "list_all alone threeFailures
   \<and> isOpen (state openedBreaker) \<and> shouldAttemptReset clockRuntime openedBreaker 61001
   \<and> failsAt 61002 61001 = (Rejected (RValue ''upstream unavailable''), 61002)
   \<and> isOpen (state (fst (snd (execute_alone clockRuntime openedBreaker (failsAt 61002) 61001))))
   \<and> lastFailureTime (state (fst (snd (execute_alone clockRuntime openedBreaker (failsAt 61002) 61001))))
       = Some 61002
   \<and> successCount (state (fst (snd (execute_alone clockRuntime openedBreaker (failsAt 61002) 61001)))) = 0"
proof -
  have op: "failsAt 61002 61001 = (Rejected (RValue ''upstream unavailable''), 61002)"
    by (simp add: failsAt_def)
  have ser: "list_all alone threeFailures"
    by (simp add: threeFailures_def)
  have hyps: "isOpen (state openedBreaker)" "shouldAttemptReset clockRuntime openedBreaker 61001"
    by (simp_all add: openedBreaker_state shouldAttemptReset_def clockRuntime_def)
  from trial_failure_reopens[of openedBreaker clockRuntime threeFailures
          "''ai-provider''" scenarioConfig 997 "failsAt 61002" 61001 "''upstream unavailable''" 61002,
          OF openedBreaker_reached ser op] hyps
  have "isOpen (state (fst (snd (execute_alone clockRuntime openedBreaker (failsAt 61002) 61001))))"
    "lastFailureTime (state (fst (snd (execute_alone clockRuntime openedBreaker (failsAt 61002) 61001))))
       = Some (dateNow clockRuntime 61002)"
    "successCount (state (fst (snd (execute_alone clockRuntime openedBreaker (failsAt 61002) 61001)))) = 0"
    by blast+
  with ser hyps op show ?thesis by (simp add: clockRuntime_def)
qed

text \<open>
  Claim C2 as stated fails for a failure that follows a trial success. In the scenario
  (\<open>failureThreshold = 3\<close>, \<open>successThreshold = 2\<close>) the opened breaker lets a trial
  through at \<open>t = 61001\<close>, which succeeds: one trial success, one short of closing. The
  next call fails. The breaker does not go back to open and its success counter stays at
  one.
\<close>

theorem trial_failure_after_success_counterexample:
  "successCount (state afterTrialSuccess) = 1
   \<and> successCount (state afterTrialSuccess) < successThreshold (config afterTrialSuccess)
   \<and> \<not> isOpen (state afterTrialFailure)
   \<and> successCount (state afterTrialFailure) = 1"
  by (simp add: afterTrialFailure_def afterTrialSuccess_state failsAt_def clockRuntime_def
        execute_alone_def execute_begin_def execute_resume_def onFailure_def Let_def)

subsection \<open>Opening at the failure threshold\<close>

lemma outcomes_append:
  "outcomes p rt (xs @ ys) s = (outcomes p rt xs s \<and> outcomes p rt ys (run rt xs s))"
  by (induction xs arbitrary: s) (auto split: option.splits)

lemma outcomes_ConsE:
  assumes "outcomes p rt (a # fs) (cb, w)"
  obtains outcome w' where "outcome_of a w = Some (outcome, w')" and "p outcome"
    and "outcomes p rt fs (step rt a (cb, w))"
  using assms by (auto split: option.splits)

text \<open>On a breaker that is not open, an action that delivers an outcome is the second
  part of \<open>execute\<close> on that outcome, whether the call ran alone or was resumed.\<close>

lemma step_outcome_closed:
  assumes "\<not> isOpen (state cb)" and "outcome_of a w = Some (outcome, w')"
  shows "step rt a (cb, w) = (snd (execute_resume rt cb outcome w'), w')"
proof (cases a)
  case (Execute operation)
  with assms(2) have "operation w = (outcome, w')" by simp
  with Execute show ?thesis
    by (simp add: execute_alone_admitted[OF begin_closed[OF assms(1)]])
next
  case (Resume out)
  with assms(2) show ?thesis by simp
qed (use assms(2) in simp_all)

text \<open>On a breaker that is not open, the first part of a call changes nothing.\<close>

lemma step_begin_closed: "\<not> isOpen (state cb) \<Longrightarrow> step rt Begin (cb, w) = (cb, w)"
  by (simp add: begin_closed)

text \<open>Failures that stay below the threshold keep the breaker closed and are counted.\<close>

lemma run_failures_below:
  assumes "failures rt fs (cb, w)" and "\<not> isOpen (state cb)"
      and "failureCount (state cb) + int (length fs) < failureThreshold (config cb)"
  shows "\<not> isOpen (state (fst (run rt fs (cb, w))))
       \<and> failureCount (state (fst (run rt fs (cb, w)))) = failureCount (state cb) + int (length fs)"
  using assms
proof (induction fs arbitrary: cb w)
  case Nil
  then show ?case by simp
next
  case (Cons a fs)
  from Cons.prems(1) have "outcomes failure rt (a # fs) (cb, w)" by (simp add: failures_def)
  then obtain outcome w' where out: "outcome_of a w = Some (outcome, w')"
      and f: "failure outcome" and rest: "outcomes failure rt fs (step rt a (cb, w))"
    by (rule outcomes_ConsE)
  from f obtain e where e: "outcome = Rejected (RValue e)"
    by (auto elim: failure.elims)
  let ?cb = "breakerAfter (onFailure rt cb (RValue e) w')"
  have st: "step rt a (cb, w) = (?cb, w')"
    using step_outcome_closed[OF Cons.prems(2) out, of rt] e by (simp add: resume_breaker)
  have "\<not> isOpen (state ?cb)" using Cons.prems by (simp add: onFailure_facts)
  moreover have "failureCount (state ?cb) + int (length fs) < failureThreshold (config ?cb)"
    using Cons.prems by (simp add: onFailure_facts)
  moreover have "failures rt fs (?cb, w')" using rest st by (simp add: failures_def)
  ultimately have "\<not> isOpen (state (fst (run rt fs (?cb, w'))))
       \<and> failureCount (state (fst (run rt fs (?cb, w')))) = failureCount (state ?cb) + int (length fs)"
    using Cons.IH by blast
  then show ?case using st by (simp add: onFailure_facts)
qed

text \<open>The failure that brings the count to the threshold opens the breaker.\<close>

lemma run_failures_reach:
  assumes "failures rt fs (cb, w)" and "\<not> isOpen (state cb)" and "fs \<noteq> []"
      and "failureCount (state cb) + int (length fs) = failureThreshold (config cb)"
  shows "isOpen (state (fst (run rt fs (cb, w))))"
proof -
  from \<open>fs \<noteq> []\<close> obtain gs f where fs: "fs = gs @ [f]"
    by (metis rev_exhaust)
  obtain cb1 w1 where r: "run rt gs (cb, w) = (cb1, w1)" by (cases "run rt gs (cb, w)")
  from assms(1) fs r have fgs: "failures rt gs (cb, w)" and ff: "outcomes failure rt [f] (cb1, w1)"
    by (simp_all add: failures_def outcomes_append)
  have below: "\<not> isOpen (state cb1) \<and> failureCount (state cb1) = failureCount (state cb) + int (length gs)"
    using run_failures_below[OF fgs assms(2)] assms(4) fs r by simp
  have cfg: "config cb1 = config cb" using run_config[of rt gs "(cb, w)"] r by simp
  from ff obtain outcome w' where out: "outcome_of f w1 = Some (outcome, w')" and p: "failure outcome"
    by (rule outcomes_ConsE)
  from p obtain e where e: "outcome = Rejected (RValue e)"
    by (auto elim: failure.elims)
  from below have closed: "\<not> isOpen (state cb1)" by simp
  have "step rt f (cb1, w1) = (breakerAfter (onFailure rt cb1 (RValue e) w'), w')"
    using step_outcome_closed[OF closed out, of rt] e by (simp add: resume_breaker)
  then have "run rt fs (cb, w) = (breakerAfter (onFailure rt cb1 (RValue e) w'), w')"
    using fs r by (simp add: run_append)
  then show ?thesis using below cfg assms(4) fs by (simp add: onFailure_facts)
qed

text \<open>Failures that reject with \<open>null\<close> or \<open>undefined\<close> are counted and never open
  the breaker.\<close>

lemma run_nullish_failures:
  assumes "nullish_failures rt ns (cb, w)" and "\<not> isOpen (state cb)"
  shows "\<not> isOpen (state (fst (run rt ns (cb, w))))
       \<and> failureCount (state (fst (run rt ns (cb, w)))) = failureCount (state cb) + int (length ns)"
  using assms
proof (induction ns arbitrary: cb w)
  case Nil
  then show ?case by simp
next
  case (Cons a ns)
  from Cons.prems(1) have "outcomes nullish_failure rt (a # ns) (cb, w)"
    by (simp add: nullish_failures_def)
  then obtain outcome w' where out: "outcome_of a w = Some (outcome, w')"
      and f: "nullish_failure outcome" and rest: "outcomes nullish_failure rt ns (step rt a (cb, w))"
    by (rule outcomes_ConsE)
  from f obtain err where e: "outcome = Rejected err" and n: "nullish err"
    by (auto elim: nullish_failure.elims)
  let ?cb = "breakerAfter (onFailure rt cb err w')"
  have st: "step rt a (cb, w) = (?cb, w')"
    using step_outcome_closed[OF Cons.prems(2) out, of rt] e by (simp add: resume_breaker)
  have "\<not> isOpen (state ?cb)" using Cons.prems(2) n by (simp add: onFailure_facts)
  moreover have "nullish_failures rt ns (?cb, w')" using rest st by (simp add: nullish_failures_def)
  ultimately have "\<not> isOpen (state (fst (run rt ns (?cb, w'))))
       \<and> failureCount (state (fst (run rt ns (?cb, w')))) = failureCount (state ?cb) + int (length ns)"
    using Cons.IH by blast
  then show ?case using st by (simp add: onFailure_facts)
qed

lemma step_success_resets:
  assumes "succeeds s (cb, w)" and "\<not> isOpen (state cb)"
  shows "\<not> isOpen (state (fst (step rt s (cb, w)))) \<and> failureCount (state (fst (step rt s (cb, w)))) = 0"
proof -
  from assms(1) obtain outcome w' where out: "outcome_of s w = Some (outcome, w')"
      and ful: "fulfilment outcome"
    by (auto simp: succeeds_def split: option.splits)
  from ful obtain r where r: "outcome = Fulfilled r"
    by (auto elim: fulfilment.elims)
  have "step rt s (cb, w) = (onSuccess rt cb w', w')"
    using step_outcome_closed[OF assms(2) out, of rt] r by (simp add: resume_breaker)
  then show ?thesis using assms(2) by (simp add: onSuccess_facts)
qed

text \<open>
  Claim C3, evaluated on the code. Take a breaker that is not open, with failure
  threshold \<open>F\<close>. The outcomes are those of calls that run alone or of resumed calls; on
  a breaker that is not open the first part of a call changes nothing, so overlapping
  calls count here through their outcomes.

  For failures that reject with a value other than \<open>null\<close> and \<open>undefined\<close> the claim
  holds: as long as the consecutive failures (those already counted plus the new ones,
  \<open>fs\<close>) number less than \<open>F\<close> the breaker stays closed; the failure that brings the
  count to \<open>F\<close> opens it. A single success \<open>s\<close> after fewer than \<open>F\<close> failures sets the
  count back to zero: after it, a run \<open>gs\<close> of fewer than \<open>F\<close> further failures leaves
  the breaker closed, and a fresh run of \<open>F\<close> failures opens it.

  For failures that reject with \<open>null\<close> or \<open>undefined\<close> it does not: a run \<open>ns\<close> of
  them, however long, is counted and leaves the breaker closed, because \<open>onFailure\<close>
  throws on \<open>error.message\<close> before it tests the threshold.
\<close>

theorem closed_opens_at_threshold:
  assumes "\<not> isOpen (state cb)"
      and "failures rt fs (cb, w)"
      and "succeeds s (run rt fs (cb, w))"
      and "failures rt gs (run rt (fs @ [s]) (cb, w))"
      and "nullish_failures rt ns (cb, w)"
  shows "(failureCount (state cb) + int (length fs) < failureThreshold (config cb) \<longrightarrow>
            \<not> isOpen (state (fst (run rt fs (cb, w))))
          \<and> failureCount (state (fst (run rt (fs @ [s]) (cb, w)))) = 0
          \<and> (int (length gs) < failureThreshold (config cb) \<longrightarrow>
               \<not> isOpen (state (fst (run rt (fs @ [s] @ gs) (cb, w)))))
          \<and> (gs \<noteq> [] \<and> int (length gs) = failureThreshold (config cb) \<longrightarrow>
               isOpen (state (fst (run rt (fs @ [s] @ gs) (cb, w))))))
       \<and> (fs \<noteq> [] \<and> failureCount (state cb) + int (length fs) = failureThreshold (config cb) \<longrightarrow>
            isOpen (state (fst (run rt fs (cb, w)))))
       \<and> \<not> isOpen (state (fst (run rt ns (cb, w))))
       \<and> failureCount (state (fst (run rt ns (cb, w)))) = failureCount (state cb) + int (length ns)"
proof (intro conjI impI)
  assume lt: "failureCount (state cb) + int (length fs) < failureThreshold (config cb)"
  obtain cb1 w1 where r1: "run rt fs (cb, w) = (cb1, w1)" by (cases "run rt fs (cb, w)")
  have c1: "\<not> isOpen (state cb1)"
    using run_failures_below[OF assms(2) assms(1) lt] r1 by simp
  show "\<not> isOpen (state (fst (run rt fs (cb, w))))" using c1 r1 by simp
  obtain cb2 w2 where r2: "step rt s (cb1, w1) = (cb2, w2)" by (cases "step rt s (cb1, w1)")
  have s1: "succeeds s (cb1, w1)" using assms(3) r1 by simp
  have c2: "\<not> isOpen (state cb2) \<and> failureCount (state cb2) = 0"
    using step_success_resets[OF s1 c1, of rt] r2 by simp
  have cfg2: "config cb2 = config cb"
    using run_config[of rt fs "(cb, w)"] step_config[of rt s "(cb1, w1)"] r1 r2 by simp
  have r1s: "run rt (fs @ [s]) (cb, w) = (cb2, w2)"
    using r1 r2 by (simp add: run_append)
  have r12: "run rt (fs @ [s] @ gs) (cb, w) = run rt gs (cb2, w2)"
    using r1 r2 by (simp add: run_append)
  have g2: "failures rt gs (cb2, w2)" using assms(4) r1s by simp
  show "failureCount (state (fst (run rt (fs @ [s]) (cb, w)))) = 0"
    using r1s c2 by simp
  {
    assume "int (length gs) < failureThreshold (config cb)"
    then show "\<not> isOpen (state (fst (run rt (fs @ [s] @ gs) (cb, w))))"
      using run_failures_below[OF g2] c2 cfg2 r12 by simp
  }
  {
    assume "gs \<noteq> [] \<and> int (length gs) = failureThreshold (config cb)"
    then show "isOpen (state (fst (run rt (fs @ [s] @ gs) (cb, w))))"
      using run_failures_reach[OF g2] c2 cfg2 r12 by simp
  }
next
  assume "fs \<noteq> [] \<and> failureCount (state cb) + int (length fs) = failureThreshold (config cb)"
  then show "isOpen (state (fst (run rt fs (cb, w))))"
    using run_failures_reach[OF assms(2) assms(1)] by simp
next
  show "\<not> isOpen (state (fst (run rt ns (cb, w))))"
    using run_nullish_failures[OF assms(5) assms(1)] by simp
  show "failureCount (state (fst (run rt ns (cb, w)))) = failureCount (state cb) + int (length ns)"
    using run_nullish_failures[OF assms(5) assms(1)] by simp
qed

lemma scenario_outcomes:
  "failures clockRuntime twoFailures s"
  "failures clockRuntime threeFailures s"
  "succeeds oneSuccess s"
  "nullish_failures clockRuntime threeUndefined s"
  "nullish_failures clockRuntime [] s"
  by (simp_all add: twoFailures_def threeFailures_def threeUndefined_def oneSuccess_def
        failures_def nullish_failures_def succeeds_def failsAt_def succeedsAt_def
        rejectsUndefinedAt_def)

theorem closed_opens_at_threshold_witness:
  "\<not> isOpen (state scenarioBreaker)
   \<and> failures clockRuntime twoFailures (scenarioBreaker, 0)
   \<and> succeeds oneSuccess (run clockRuntime twoFailures (scenarioBreaker, 0))
   \<and> failures clockRuntime threeFailures (run clockRuntime (twoFailures @ [oneSuccess]) (scenarioBreaker, 0))
   \<and> nullish_failures clockRuntime threeUndefined (scenarioBreaker, 0)
   \<and> failureCount (state scenarioBreaker) + int (length twoFailures)
       < failureThreshold (config scenarioBreaker)
   \<and> int (length threeFailures) = failureThreshold (config scenarioBreaker)
   \<and> int (length threeUndefined) = failureThreshold (config scenarioBreaker)
   \<and> \<not> isOpen (state (fst (run clockRuntime twoFailures (scenarioBreaker, 0))))
   \<and> \<not> isOpen (state (fst (run clockRuntime (twoFailures @ [oneSuccess] @ twoFailures)
                               (scenarioBreaker, 0))))
   \<and> isOpen (state (fst (run clockRuntime (twoFailures @ [oneSuccess] @ threeFailures)
                             (scenarioBreaker, 0))))
   \<and> isOpen (state (fst (run clockRuntime threeFailures (scenarioBreaker, 0))))
   \<and> \<not> isOpen (state (fst (run clockRuntime threeUndefined (scenarioBreaker, 0))))
   \<and> failureCount (state (fst (run clockRuntime threeUndefined (scenarioBreaker, 0)))) = 3"
proof -
  have c: "\<not> isOpen (state scenarioBreaker)"
    by (simp add: scenarioBreaker_state initialState_def)
  note f2 = scenario_outcomes(1)[of "(scenarioBreaker, 0)"]
  note f3 = scenario_outcomes(2)[of "(scenarioBreaker, 0)"]
  note s = scenario_outcomes(3)[of "run clockRuntime twoFailures (scenarioBreaker, 0)"]
  note s3 = scenario_outcomes(3)[of "run clockRuntime threeFailures (scenarioBreaker, 0)"]
  note g2 = scenario_outcomes(1)[of "run clockRuntime (twoFailures @ [oneSuccess]) (scenarioBreaker, 0)"]
  note g3 = scenario_outcomes(2)[of "run clockRuntime (twoFailures @ [oneSuccess]) (scenarioBreaker, 0)"]
  note h3 = scenario_outcomes(2)[of "run clockRuntime (threeFailures @ [oneSuccess]) (scenarioBreaker, 0)"]
  note u3 = scenario_outcomes(4)[of "(scenarioBreaker, 0)"]
  note u0 = scenario_outcomes(5)[of "(scenarioBreaker, 0)"]
  have n2: "failureCount (state scenarioBreaker) + int (length twoFailures)
              < failureThreshold (config scenarioBreaker)"
    by (simp add: scenarioBreaker_state initialState_def twoFailures_def)
  have n3: "threeFailures \<noteq> []"
      "int (length threeFailures) = failureThreshold (config scenarioBreaker)"
      "failureCount (state scenarioBreaker) + int (length threeFailures)
         = failureThreshold (config scenarioBreaker)"
    by (simp_all add: scenarioBreaker_state initialState_def threeFailures_def)
  have nu: "int (length threeUndefined) = failureThreshold (config scenarioBreaker)"
      "failureCount (state scenarioBreaker) + int (length threeUndefined) = 3"
    by (simp_all add: scenarioBreaker_state initialState_def threeUndefined_def)
  have l2: "int (length twoFailures) < failureThreshold (config scenarioBreaker)"
    by (simp add: scenarioBreaker_state twoFailures_def)
  from closed_opens_at_threshold[OF c f2 s g2 u3] n2 l2
  have a: "\<not> isOpen (state (fst (run clockRuntime twoFailures (scenarioBreaker, 0))))"
      "\<not> isOpen (state (fst (run clockRuntime (twoFailures @ [oneSuccess] @ twoFailures)
                               (scenarioBreaker, 0))))"
      "\<not> isOpen (state (fst (run clockRuntime threeUndefined (scenarioBreaker, 0))))"
      "failureCount (state (fst (run clockRuntime threeUndefined (scenarioBreaker, 0))))
         = failureCount (state scenarioBreaker) + int (length threeUndefined)"
    by blast+
  from closed_opens_at_threshold[OF c f2 s g3 u0] n2 n3
  have b: "isOpen (state (fst (run clockRuntime (twoFailures @ [oneSuccess] @ threeFailures)
                             (scenarioBreaker, 0))))"
    by blast
  from closed_opens_at_threshold[OF c f3 s3 h3 u0] n3
  have d: "isOpen (state (fst (run clockRuntime threeFailures (scenarioBreaker, 0))))"
    by blast
  from a(4) nu have e: "failureCount (state (fst (run clockRuntime threeUndefined (scenarioBreaker, 0)))) = 3"
    by simp
  from c f2 s g3 u3 n2 n3 nu a b d e show ?thesis by blast
qed

subsection \<open>The success counter stays below its threshold\<close>

lemma begin_successCount_bound:
  assumes "0 < successThreshold (config cb)"
      and "successCount (state cb) < successThreshold (config cb)"
      and "execute_begin rt cb w = Admitted cb1"
  shows "successCount (state cb1) < successThreshold (config cb)"
  using assms by (auto simp: execute_begin_def split: if_splits)

lemma resume_successCount_bound:
  assumes "0 < successThreshold (config cb)"
      and "successCount (state cb) < successThreshold (config cb)"
  shows "successCount (state (snd (execute_resume rt cb outcome w))) < successThreshold (config cb)"
proof (cases outcome)
  case (Fulfilled r)
  with assms show ?thesis by (simp add: resume_breaker onSuccess_def Let_def)
next
  case (Rejected err)
  with assms show ?thesis by (simp add: resume_breaker onFailure_facts)
qed

lemma execute_successCount_bound:
  assumes "0 < successThreshold (config cb)"
      and "successCount (state cb) < successThreshold (config cb)"
  shows "successCount (state (fst (snd (execute_alone rt cb operation w)))) < successThreshold (config cb)"
proof (cases "execute_begin rt cb w")
  case (Refused e)
  with assms show ?thesis by (simp add: execute_alone_refused)
next
  case (Admitted cb1)
  have b: "successCount (state cb1) < successThreshold (config cb1)"
      and p: "0 < successThreshold (config cb1)"
    using begin_successCount_bound[OF assms Admitted] begin_config[OF Admitted] assms(1) by simp_all
  show ?thesis
    using resume_successCount_bound[OF p b, of rt "fst (operation w)" "snd (operation w)"]
      begin_config[OF Admitted]
    by (simp add: execute_alone_admitted[OF Admitted])
qed

lemma step_successCount_bound:
  assumes "0 < successThreshold (config (fst s))"
      and "successCount (state (fst s)) < successThreshold (config (fst s))"
  shows "successCount (state (fst (step rt a s))) < successThreshold (config (fst s))"
proof (cases s)
  case (Pair cb w)
  show ?thesis
  proof (cases a)
    case (Execute operation)
    with Pair assms show ?thesis by (simp add: execute_successCount_bound)
  next
    case Begin
    with Pair assms show ?thesis
      by (auto split: admission.splits dest: begin_successCount_bound)
  next
    case (Resume outcome)
    with Pair assms show ?thesis by (simp add: resume_successCount_bound)
  next
    case Reset
    with Pair assms show ?thesis by (simp add: reset_def initialState_def)
  next
    case (Elapse f)
    with Pair assms show ?thesis by simp
  qed
qed

lemma run_successCount_bound:
  assumes "0 < successThreshold (config (fst s))"
      and "successCount (state (fst s)) < successThreshold (config (fst s))"
  shows "successCount (state (fst (run rt acts s))) < successThreshold (config (fst s))"
  using assms
proof (induction acts arbitrary: s)
  case Nil
  then show ?case by simp
next
  case (Cons a acts)
  have "successCount (state (fst (step rt a s))) < successThreshold (config (fst (step rt a s)))"
    using Cons.prems by (simp add: step_successCount_bound)
  moreover have "0 < successThreshold (config (fst (step rt a s)))"
    using Cons.prems by simp
  ultimately have "successCount (state (fst (run rt acts (step rt a s))))
      < successThreshold (config (fst (step rt a s)))"
    by (rule Cons.IH[rotated])
  then show ?case by simp
qed

text \<open>
  Claim C9. For a breaker whose effective success threshold (the configured one, or 2
  when none or zero is given) is positive, in every state reached from the constructor by
  any sequence of calls of \<open>execute\<close> (whatever the operation does and whatever it
  rejects with, calls that run alone as well as the two parts of overlapping calls in any
  order), of \<open>reset\<close> and of time passing, the success counter that \<open>getState\<close> shows is
  strictly below the success threshold. The empty sequence gives the initial state.
\<close>

theorem successCount_below_threshold:
  assumes "0 < successThreshold (config (CircuitBreaker_new nm cfg))"
  shows "successCount (getState (fst (run rt acts (CircuitBreaker_new nm cfg, w))))
           < successThreshold (config (CircuitBreaker_new nm cfg))"
  using run_successCount_bound[of "(CircuitBreaker_new nm cfg, w)" rt acts] assms
  by (simp add: getState_def CircuitBreaker_new_def initialState_def)

theorem successCount_below_threshold_witness:
  "0 < successThreshold (config (CircuitBreaker_new ''ai-provider'' scenarioConfig))
   \<and> successCount (getState (fst (run clockRuntime (threeFailures @ [Reset, oneSuccess] @ overlapping)
                                   (CircuitBreaker_new ''ai-provider'' scenarioConfig, 997))))
       < successThreshold (config (CircuitBreaker_new ''ai-provider'' scenarioConfig))"
proof -
  have h: "0 < successThreshold (config (CircuitBreaker_new ''ai-provider'' scenarioConfig))"
    by (simp add: scenarioConfig_def CircuitBreaker_new_def)
  from successCount_below_threshold[OF h, of clockRuntime
         "threeFailures @ [Reset, oneSuccess] @ overlapping" 997] h
  show ?thesis by blast
qed


section \<open>Properties of the central error handler\<close>

subsection \<open>The not-found handler\<close>

text \<open>
  Claim C4, evaluated on the code. For every request, the error that \<open>notFoundHandler\<close>
  builds is a \<open>ValidationError\<close>: its code is \<open>VALIDATION_ERROR\<close>, which is not a code of
  the not-found family, and its own status is 400. The response is sent with status 404
  and carries that error's envelope, whose code is \<open>VALIDATION_ERROR\<close>. The class
  \<open>NotFoundError\<close> of the taxonomy, with code \<open>NOT_FOUND\<close> and status 404, is not used.
\<close>

theorem notFoundHandler_builds_validation_error:
  "code (notFoundHandler_error now stk req) = VALIDATION_ERROR
   \<and> code (notFoundHandler_error now stk req) \<notin> notFoundFamily
   \<and> className (notFoundHandler_error now stk req) = ''ValidationError''
   \<and> statusCode (notFoundHandler_error now stk req) = 400
   \<and> resStatus (notFoundHandler now stk node_env req) = 404
   \<and> resJson (notFoundHandler now stk node_env req) = toJSON node_env (notFoundHandler_error now stk req)
   \<and> bodyCode (error (resJson (notFoundHandler now stk node_env req))) = VALIDATION_ERROR
   \<and> code (NotFoundError now stk None None) = NOT_FOUND
   \<and> statusCode (NotFoundError now stk None None) = 404"
  by (simp add: notFoundHandler_def notFoundHandler_error_def ValidationError_def NotFoundError_def
        AppError_new_def toJSON_def notFoundFamily_def Let_def)

theorem notFoundHandler_builds_validation_error_witness:
  "bodyCode (error (resJson (notFoundHandler ''2026-01-01T00:00:00.000Z'' ''Error'' None unmatchedRequest)))
     = VALIDATION_ERROR
   \<and> statusCode (notFoundHandler_error ''2026-01-01T00:00:00.000Z'' ''Error'' unmatchedRequest) = 400
   \<and> resStatus (notFoundHandler ''2026-01-01T00:00:00.000Z'' ''Error'' None unmatchedRequest) = 404"
  using notFoundHandler_builds_validation_error
          [of "''2026-01-01T00:00:00.000Z''" "''Error''" unmatchedRequest None]
  by blast

subsection \<open>Sanitizing the logged body\<close>

lemma set_property_length [simp]: "length (set_property h a f v) = length h"
  by (simp add: set_property_def)

lemma set_property_other: "b \<noteq> a \<Longrightarrow> set_property h a f v ! b = h ! b"
  by (simp add: set_property_def)

lemma set_property_same:
  "a < length h \<Longrightarrow> props (set_property h a f v ! a) = (props (h ! a))(f \<mapsto> v)"
  by (simp add: set_property_def)

lemma redact_length [simp]: "length (redact fs s h) = length h"
  by (induction fs arbitrary: h) simp_all

text \<open>The loop writes to the copy only.\<close>

lemma redact_other: "b \<noteq> s \<Longrightarrow> redact fs s h ! b = h ! b"
  by (induction fs arbitrary: h) (simp_all add: set_property_other)

text \<open>What the loop leaves in the copy.\<close>

lemma redact_props:
  "s < length h \<Longrightarrow>
   props (redact fs s h ! s) k =
     (if k \<in> set fs \<and> props (h ! s) k \<noteq> None then Some REDACTED else props (h ! s) k)"
proof (induction fs arbitrary: h)
  case Nil
  then show ?case by simp
next
  case (Cons f fs)
  show ?case
  proof (cases "has_property h s f")
    case True
    let ?h = "set_property h s f REDACTED"
    have len: "s < length ?h" using Cons.prems by simp
    have p: "props (?h ! s) = (props (h ! s))(f \<mapsto> REDACTED)"
      using Cons.prems by (rule set_property_same)
    from Cons.IH[OF len] True p show ?thesis
      by (auto simp: has_property_def)
  next
    case False
    with Cons.IH[OF Cons.prems] show ?thesis
      by (auto simp: has_property_def)
  qed
qed

lemma sanitize_primitive:
  "\<not> truthy body \<or> typeof h body \<noteq> ''object'' \<Longrightarrow> sanitizeRequestBody h body = (body, h)"
  by (simp add: sanitizeRequestBody_def)

lemma sanitize_object:
  assumes "truthy body" and "typeof h body = ''object''"
  shows "\<exists>a. body = VRef a \<and>
           sanitizeRequestBody h body =
             (VRef (length h),
              redact sensitiveFields (length h) (h @ [\<lparr>kind = PlainObject, props = props (h ! a)\<rparr>]))"
  using assms by (cases body) (simp_all add: sanitizeRequestBody_def spread_def)

lemma sanitize_frame:
  "b < length h \<Longrightarrow> snd (sanitizeRequestBody h body) ! b = h ! b"
proof (cases "\<not> truthy body \<or> typeof h body \<noteq> ''object''")
  case True
  then show ?thesis by (simp add: sanitize_primitive)
next
  case False
  assume b: "b < length h"
  from False obtain a where
    "sanitizeRequestBody h body =
       (VRef (length h),
        redact sensitiveFields (length h) (h @ [\<lparr>kind = PlainObject, props = props (h ! a)\<rparr>]))"
    using sanitize_object[of body h] by auto
  with b show ?thesis
    by (simp add: redact_other nth_append)
qed

lemma sanitize_length: "length h \<le> length (snd (sanitizeRequestBody h body))"
proof (cases "\<not> truthy body \<or> typeof h body \<noteq> ''object''")
  case True
  then show ?thesis by (simp add: sanitize_primitive)
next
  case False
  then obtain a where
    "sanitizeRequestBody h body =
       (VRef (length h),
        redact sensitiveFields (length h) (h @ [\<lparr>kind = PlainObject, props = props (h ! a)\<rparr>]))"
    using sanitize_object[of body h] by auto
  then show ?thesis by simp
qed

lemma errorHandler_body:
  "logBody (fst (errorHandler now stk node_env h err req)) = fst (sanitizeRequestBody h (reqBody req))"
  "snd (snd (errorHandler now stk node_env h err req)) = snd (sanitizeRequestBody h (reqBody req))"
  by (simp_all add: errorHandler_def Let_def split: prod.splits)

lemma nestedHeap_facts:
  "length nestedHeap = 2"
  "kind (nestedHeap ! Suc 0) = PlainObject"
  "props (nestedHeap ! Suc 0) ''password'' = Some (VStr ''topsecret'')"
  "props (nestedHeap ! Suc 0) ''email'' = Some (VStr ''a@b.c'')"
  "reqBody loginRequest = VRef 1"
  by (simp_all add: nestedHeap_def loginRequest_def)

text \<open>
  Claim C5, as the code has it. When the body of the request is an object, the error
  handler logs a fresh copy of it, not the body itself. Reading a top-level field \<open>k\<close>
  of the logged copy gives the string \<open>[REDACTED]\<close> if \<open>k\<close> is one of \<open>password\<close>,
  \<open>token\<close>, \<open>secret\<close>, \<open>apiKey\<close>, \<open>api_key\<close> and the body has that field, and otherwise
  gives exactly what the body has under \<open>k\<close>. The copy is shallow: a field holding a
  nested object holds the same object in the copy, so nothing below the top level is
  redacted.
\<close>

theorem sanitize_top_level:
  assumes "reqBody req = VRef a" and "a < length h" and "kind (h ! a) \<noteq> FunctionObject"
  shows "logBody (fst (errorHandler now stk node_env h err req)) = VRef (length h)
       \<and> logBody (fst (errorHandler now stk node_env h err req)) \<noteq> reqBody req
       \<and> get_property (snd (snd (errorHandler now stk node_env h err req)))
            (logBody (fst (errorHandler now stk node_env h err req))) k
          = (if k \<in> set sensitiveFields \<and> props (h ! a) k \<noteq> None then REDACTED
             else get_property h (reqBody req) k)"
proof -
  have t: "truthy (reqBody req)" "typeof h (reqBody req) = ''object''"
    using assms by simp_all
  from sanitize_object[OF t] assms(1)
  have eq: "sanitizeRequestBody h (VRef a) =
       (VRef (length h),
        redact sensitiveFields (length h) (h @ [\<lparr>kind = PlainObject, props = props (h ! a)\<rparr>]))"
    by auto
  let ?h1 = "h @ [\<lparr>kind = PlainObject, props = props (h ! a)\<rparr>]"
  have "props (redact sensitiveFields (length h) ?h1 ! length h) k =
          (if k \<in> set sensitiveFields \<and> props (?h1 ! length h) k \<noteq> None then Some REDACTED
           else props (?h1 ! length h) k)"
    by (rule redact_props) simp
  then have pr: "props (redact sensitiveFields (length h) ?h1 ! length h) k =
          (if k \<in> set sensitiveFields \<and> props (h ! a) k \<noteq> None then Some REDACTED
           else props (h ! a) k)"
    by simp
  show ?thesis
    using assms(1,2) pr by (auto simp: errorHandler_body eq split: option.splits)
qed

theorem sanitize_top_level_witness:
  "reqBody loginRequest = VRef 1 \<and> 1 < length nestedHeap
   \<and> kind (nestedHeap ! 1) \<noteq> FunctionObject
   \<and> get_property heapAfterLogging loggedBody ''password'' = REDACTED
   \<and> get_property heapAfterLogging loggedBody ''email'' = VStr ''a@b.c''"
proof -
  have hyps: "reqBody loginRequest = VRef 1" "1 < length nestedHeap"
      "kind (nestedHeap ! 1) \<noteq> FunctionObject"
    by (simp_all add: nestedHeap_facts)
  have "get_property heapAfterLogging loggedBody ''password''
      = (if ''password'' \<in> set sensitiveFields \<and> props (nestedHeap ! 1) ''password'' \<noteq> None
         then REDACTED else get_property nestedHeap (reqBody loginRequest) ''password'')"
    unfolding heapAfterLogging_def loggedBody_def
    using sanitize_top_level[OF hyps, of "''2026-01-01T00:00:00.000Z''" "''Error''" None
            someFailure "''password''"]
    by blast
  also have "\<dots> = REDACTED"
    by (simp add: sensitiveFields_def nestedHeap_facts)
  finally have a: "get_property heapAfterLogging loggedBody ''password'' = REDACTED" .
  have "get_property heapAfterLogging loggedBody ''email''
      = (if ''email'' \<in> set sensitiveFields \<and> props (nestedHeap ! 1) ''email'' \<noteq> None
         then REDACTED else get_property nestedHeap (reqBody loginRequest) ''email'')"
    unfolding heapAfterLogging_def loggedBody_def
    using sanitize_top_level[OF hyps, of "''2026-01-01T00:00:00.000Z''" "''Error''" None
            someFailure "''email''"]
    by blast
  also have "\<dots> = VStr ''a@b.c''"
    by (simp add: sensitiveFields_def nestedHeap_facts)
  finally have b: "get_property heapAfterLogging loggedBody ''email'' = VStr ''a@b.c''" .
  from hyps a b show ?thesis by blast
qed

text \<open>
  Claim C5 as stated fails for a nested field. The body of the login request has a
  \<open>password\<close> of its own and an object under \<open>user\<close> with a \<open>password\<close> too. In the
  logged copy the first is redacted; the second is still readable in clear.
\<close>

theorem nested_password_counterexample:
  "get_property heapAfterLogging loggedBody ''password'' = REDACTED
   \<and> get_property heapAfterLogging (get_property heapAfterLogging loggedBody ''user'') ''password''
       = VStr ''hunter2''
   \<and> VStr ''hunter2'' \<noteq> REDACTED"
  by (simp add: loggedBody_def heapAfterLogging_def errorHandler_body loginRequest_def
      nestedHeap_def sanitizeRequestBody_def spread_def sensitiveFields_def has_property_def
      set_property_def REDACTED_def)

text \<open>
  Claim C10. Sanitizing for the log never writes to an object that existed before: every
  cell of the heap is after the error handler what it was before, and likewise after
  \<open>sanitizeRequestBody\<close> on any body; the heap can only grow by the copy. So whoever
  reads the request body afterwards finds the original values, sensitive fields
  included. A body that is falsy (\<open>null\<close>, \<open>undefined\<close>, and also \<open>false\<close>, \<open>0\<close>, the
  empty string) or not of type \<open>object\<close> is returned as it is, and the heap with it.
\<close>

theorem sanitize_never_mutates:
  "(\<forall>b < length h. snd (snd (errorHandler now stk node_env h err req)) ! b = h ! b)
   \<and> (\<forall>b < length h. snd (sanitizeRequestBody h body) ! b = h ! b)
   \<and> length h \<le> length (snd (sanitizeRequestBody h body))
   \<and> (\<not> truthy body \<or> typeof h body \<noteq> ''object'' \<longrightarrow> sanitizeRequestBody h body = (body, h))"
  by (simp add: errorHandler_body sanitize_frame sanitize_length sanitize_primitive)

theorem sanitize_never_mutates_witness:
  "1 < length nestedHeap
   \<and> heapAfterLogging ! 1 = nestedHeap ! 1
   \<and> get_property heapAfterLogging (reqBody loginRequest) ''password'' = VStr ''topsecret''
   \<and> \<not> truthy VNull
   \<and> sanitizeRequestBody nestedHeap VNull = (VNull, nestedHeap)"
proof -
  have one: "1 < length nestedHeap" by (simp add: nestedHeap_facts)
  note inst = sanitize_never_mutates[of nestedHeap "''2026-01-01T00:00:00.000Z''" "''Error''" None
                someFailure loginRequest VNull]
  from inst one have same: "heapAfterLogging ! 1 = nestedHeap ! 1"
    unfolding heapAfterLogging_def by blast
  from inst have grow: "length nestedHeap \<le> length heapAfterLogging"
    by (simp add: heapAfterLogging_def errorHandler_body sanitize_length)
  from same grow have pw: "get_property heapAfterLogging (reqBody loginRequest) ''password''
      = VStr ''topsecret''"
    by (simp add: nestedHeap_facts)
  have n: "\<not> truthy VNull" by simp
  with inst have prim: "sanitizeRequestBody nestedHeap VNull = (VNull, nestedHeap)"
    by blast
  from one same pw n prim show ?thesis by blast
qed



section \<open>Properties of the rate limiters\<close>

text \<open>
  Claim C8, as the code has it. The general limiter exempts a request whose path is
  \<open>/health\<close>: the request passes and no counter changes. The authentication limiter and
  the limiter of expensive operations have no bypass: every request, a health check
  included, is counted against its caller's current window, and is rejected once the
  window's count has reached the maximum; for a caller without a counter, or whose window
  has expired, it starts a new window with a count of one.
\<close>

theorem health_check_bypass:
  "(reqPath req = ''/health'' \<longrightarrow> rateLimit apiRateLimit now stk t store req = (Pass, store))
   \<and> (\<forall>opts \<in> {authRateLimit, aiRateLimit}. \<forall>c.
        store (reqIp req) = Some c \<and> t - windowStart c < windowMs opts \<longrightarrow>
          snd (rateLimit opts now stk t store req) (reqIp req) = Some (c\<lparr>hits := hits c + 1\<rparr>)
        \<and> (hits c \<ge> max_requests opts \<longrightarrow>
             fst (rateLimit opts now stk t store req) = Limited (limitHandler now stk opts req)))
   \<and> (\<forall>opts \<in> {authRateLimit, aiRateLimit}.
        (store (reqIp req) = None
         \<or> (\<exists>c. store (reqIp req) = Some c \<and> windowMs opts \<le> t - windowStart c)) \<longrightarrow>
          snd (rateLimit opts now stk t store req) (reqIp req) = Some \<lparr>windowStart = t, hits = 1\<rparr>)"
  by (auto simp: rateLimit_def apiRateLimit_def authRateLimit_def aiRateLimit_def Let_def)

theorem health_check_bypass_witness:
  "reqPath healthRequest = ''/health''
   \<and> rateLimit apiRateLimit ''2026-01-01T00:00:00.000Z'' ''Error'' 1000 usedUp healthRequest = (Pass, usedUp)
   \<and> authRateLimit \<in> {authRateLimit, aiRateLimit}
   \<and> usedUp (reqIp healthRequest) = Some \<lparr>windowStart = 0, hits = 5\<rparr>
   \<and> 1000 - windowStart \<lparr>windowStart = 0, hits = 5\<rparr> < windowMs authRateLimit
   \<and> snd (rateLimit authRateLimit ''2026-01-01T00:00:00.000Z'' ''Error'' 1000 usedUp healthRequest)
        (reqIp healthRequest) = Some \<lparr>windowStart = 0, hits = 6\<rparr>
   \<and> fst (rateLimit authRateLimit ''2026-01-01T00:00:00.000Z'' ''Error'' 1000 usedUp healthRequest)
        = Limited (limitHandler ''2026-01-01T00:00:00.000Z'' ''Error'' authRateLimit healthRequest)"
proof -
  have p: "reqPath healthRequest = ''/health''" by (simp add: healthRequest_def)
  have m: "authRateLimit \<in> {authRateLimit, aiRateLimit}" by simp
  have c: "usedUp (reqIp healthRequest) = Some \<lparr>windowStart = 0, hits = 5\<rparr>"
    by (simp add: usedUp_def healthRequest_def)
  have w: "1000 - windowStart \<lparr>windowStart = 0, hits = 5\<rparr> < windowMs authRateLimit"
    by (simp add: authRateLimit_def)
  have f: "hits \<lparr>windowStart = 0, hits = 5\<rparr> \<ge> max_requests authRateLimit"
    by (simp add: authRateLimit_def)
  note inst = health_check_bypass[of healthRequest "''2026-01-01T00:00:00.000Z''" "''Error''" 1000 usedUp]
  from inst p
  have a1: "rateLimit apiRateLimit ''2026-01-01T00:00:00.000Z'' ''Error'' 1000 usedUp healthRequest
      = (Pass, usedUp)"
    by blast
  from inst m c w f have a2:
    "snd (rateLimit authRateLimit ''2026-01-01T00:00:00.000Z'' ''Error'' 1000 usedUp healthRequest)
        (reqIp healthRequest)
       = Some (\<lparr>windowStart = 0, hits = 5\<rparr>\<lparr>hits := hits \<lparr>windowStart = 0, hits = 5\<rparr> + 1\<rparr>)"
    "fst (rateLimit authRateLimit ''2026-01-01T00:00:00.000Z'' ''Error'' 1000 usedUp healthRequest)
        = Limited (limitHandler ''2026-01-01T00:00:00.000Z'' ''Error'' authRateLimit healthRequest)"
    by blast+
  from p a1 m c w a2 show ?thesis by simp
qed

text \<open>
  Claim C8 as stated fails for the authentication limiter. A health check from a caller
  who has used five requests of the current window is rejected with the rate-limit
  error, and it is counted: the caller's count goes to six.
\<close>

theorem health_check_limited_counterexample:
  "reqPath healthRequest = ''/health''
   \<and> fst (rateLimit authRateLimit ''2026-01-01T00:00:00.000Z'' ''Error'' 1000 usedUp healthRequest)
        = Limited (limitHandler ''2026-01-01T00:00:00.000Z'' ''Error'' authRateLimit healthRequest)
   \<and> snd (rateLimit authRateLimit ''2026-01-01T00:00:00.000Z'' ''Error'' 1000 usedUp healthRequest)
        (reqIp healthRequest) = Some \<lparr>windowStart = 0, hits = 6\<rparr>
   \<and> code (limitHandler ''2026-01-01T00:00:00.000Z'' ''Error'' authRateLimit healthRequest)
        = RATE_LIMIT_EXCEEDED"
  by (simp add: rateLimit_def authRateLimit_def usedUp_def healthRequest_def Let_def
        limitHandler_def RateLimitError_def AppError_new_def)


section \<open>Properties of the audit trail\<close>

lemma someFailure_status:
  "finalStatus now stk node_env h req (Throws someFailure) = 500"
  by (simp add: finalStatus_def errorHandler_def someFailure_def InternalServerError_def
        AppError_new_def Let_def split: prod.splits)

text \<open>
  Claim C7, evaluated on the code. An audited call, whether its handler answers or throws
  and the central error handler answers for it, ends the response once, and that call of
  the response's \<open>end\<close> writes exactly one audit record. Its result is success exactly
  when the final status code lies in 200..399, its user id is the caller's id when the
  request has a user with a non-empty id and \<open>anonymous\<close> otherwise, and its details hold
  the method, path, network address, user agent and status code. The record is written
  inside the replaced \<open>end\<close> before the original \<open>end\<close> is applied: of the two effects
  of ending the response, the record is the first and the original \<open>end\<close>, which
  finalizes the response, the second. The comment on the replaced \<open>end\<close> says that it
  logs after the response.
\<close>

theorem audited_call_record:
  "auditRecords (auditedCall now stk node_env h action req outcome)
     = [auditLog now action
          (case reqUser req of
             Some (User (Some uid)) \<Rightarrow> if uid = [] then ''anonymous'' else uid
           | _ \<Rightarrow> ''anonymous'')
          \<lparr>detMethod = reqMethod req, detPath = reqPath req, detIp = reqIp req,
           detUserAgent = reqUserAgent req,
           detStatusCode = finalStatus now stk node_env h req outcome\<rparr>
          (if finalStatus now stk node_env h req outcome \<in> {200..399}
           then AuditSuccess else AuditFailure)]
   \<and> length (auditedCall now stk node_env h action req outcome) = 2
   \<and> firstIndex (auditedCall now stk node_env h action req outcome) isAudit = 0
   \<and> firstIndex (auditedCall now stk node_env h action req outcome) isEnd = 1"
  by (auto simp: auditedCall_def respond_def auditLogMiddleware_def newResponse_def Let_def
        split: option.splits RequestUser.splits)

theorem audited_call_record_witness:
  "auditRecords (auditedCall ''2026-01-01T00:00:00.000Z'' ''Error'' None [] ''USER_LOGIN''
                   loginByAnn (Throws someFailure))
     = [loginRecord\<lparr>auditResult := AuditFailure,
                    auditDetails := (auditDetails loginRecord)\<lparr>detStatusCode := 500\<rparr>\<rparr>]"
  using audited_call_record[of "''2026-01-01T00:00:00.000Z''" "''Error''" None "[]" "''USER_LOGIN''"
          loginByAnn "Throws someFailure"]
  by (simp add: someFailure_status loginByAnn_def loginRecord_def auditLog_def)

text \<open>
  Claim C7 at a concrete login that answers 200: the audit record is written first, the
  original \<open>end\<close> runs after it.
\<close>

theorem audited_login_trace:
  "auditedCall ''2026-01-01T00:00:00.000Z'' ''Error'' None [] ''USER_LOGIN'' loginByAnn (Responds 200)
     = [AuditLogged loginRecord, OriginalEnd]"
  by (simp add: auditedCall_def respond_def auditLogMiddleware_def newResponse_def Let_def
        finalStatus_def loginByAnn_def loginRecord_def auditLog_def)

end
